theory Spec2Isabelle
  imports Complex_Main
begin

section \<open>Numbers, vectors and constants\<close>

text \<open>
  The game computes with JavaScript numbers. They are idealised here as real numbers:
  every threshold the development reasons about (1.8, 2, 5, 10, 50, 3000) is compared
  with values far from any rounding boundary, and no property below depends on rounding.
  A \<open>THREE.Vector3\<close> is a triple of numbers.
\<close>

datatype vec3 = Vec3 (vx: real) (vy: real) (vz: real)

definition CUBE_SIZE :: real where "CUBE_SIZE = 100"
definition CUBE_HALF_SIZE :: real where "CUBE_HALF_SIZE = CUBE_SIZE / 2"
definition SEGMENT_RADIUS :: real where "SEGMENT_RADIUS = 0.8"
definition SEGMENT_SPACING :: real where "SEGMENT_SPACING = SEGMENT_RADIUS * 2"
definition COLLISION_DISTANCE :: real where "COLLISION_DISTANCE = 1.8"
definition WALL_BUFFER :: real where "WALL_BUFFER = 5"
definition SAFE_WALL_DISTANCE :: real where "SAFE_WALL_DISTANCE = 2"
definition SAFE_OBJECT_DISTANCE :: real where "SAFE_OBJECT_DISTANCE = 2"
definition SPAWN_INTERVAL :: real where "SPAWN_INTERVAL = 3000"
definition SHADOW_SPAWN_DELAY :: real where "SHADOW_SPAWN_DELAY = 3000"

text \<open>
  The operations of \<open>THREE.Vector3\<close> and of \<open>VectorMath\<close> the game uses. Pooled
  vectors (\<open>Vector3Pool\<close>) are values here: every vector taken from the pool is
  overwritten before it is read.
\<close>

definition add :: "vec3 \<Rightarrow> vec3 \<Rightarrow> vec3" where
  "add a b = Vec3 (vx a + vx b) (vy a + vy b) (vz a + vz b)"

definition sub :: "vec3 \<Rightarrow> vec3 \<Rightarrow> vec3" where
  "sub a b = Vec3 (vx a - vx b) (vy a - vy b) (vz a - vz b)"

definition multiplyScalar :: "vec3 \<Rightarrow> real \<Rightarrow> vec3" where
  "multiplyScalar a k = Vec3 (vx a * k) (vy a * k) (vz a * k)"

definition dot :: "vec3 \<Rightarrow> vec3 \<Rightarrow> real" where
  "dot a b = vx a * vx b + vy a * vy b + vz a * vz b"

definition vlength :: "vec3 \<Rightarrow> real" where
  "vlength a = sqrt (vx a * vx a + vy a * vy a + vz a * vz a)"

definition normalize :: "vec3 \<Rightarrow> vec3" where
  \<comment> \<open>\<open>divideScalar(length() || 1)\<close>\<close>
  "normalize a = (let l = vlength a in multiplyScalar a (1 / (if l = 0 then 1 else l)))"

definition reflect :: "vec3 \<Rightarrow> vec3 \<Rightarrow> vec3" where
  "reflect v normal = sub v (multiplyScalar normal (2 * dot v normal))"

definition getDirection :: "vec3 \<Rightarrow> vec3 \<Rightarrow> vec3" where
  "getDirection from to = normalize (sub to from)"

definition moveForward :: "vec3 \<Rightarrow> vec3 \<Rightarrow> real \<Rightarrow> vec3" where
  "moveForward position direction distance = add position (multiplyScalar direction distance)"

text \<open>\<open>Math.atan2(y, x)\<close> on numbers other than \<open>NaN\<close> and the negative zero.\<close>

definition atan2 :: "real \<Rightarrow> real \<Rightarrow> real" where
  "atan2 y x =
     (if 0 < x then arctan (y / x)
      else if x < 0 then (if 0 \<le> y then arctan (y / x) + pi else arctan (y / x) - pi)
      else if 0 < y then pi / 2
      else if y < 0 then - (pi / 2)
      else 0)"

definition distanceSquared :: "vec3 \<Rightarrow> vec3 \<Rightarrow> real" where
  "distanceSquared pos1 pos2 =
     (let dx = vx pos1 - vx pos2; dy = vy pos1 - vy pos2; dz = vz pos1 - vz pos2
      in dx * dx + dy * dy + dz * dz)"

definition distanceTo :: "vec3 \<Rightarrow> vec3 \<Rightarrow> real" where
  "distanceTo p q = sqrt (distanceSquared p q)"

section \<open>SpatialGrid\<close>

text \<open>
  Objects of the scene are compared by identity in the source; an object is represented
  by its identity, a natural number. The grid key of the source is the string
  \<open>x,y,z\<close> of three integers, parsed back into the three integers by \<open>getNearby\<close>; it
  is the triple of integers here. A JavaScript \<open>Set\<close> iterates in insertion order and
  holds no duplicates: it is a duplicate-free list with \<open>set_add\<close> and \<open>set_delete\<close>.
\<close>

type_synonym oid = nat
type_synonym cell = "int \<times> int \<times> int"

definition set_add :: "'a \<Rightarrow> 'a list \<Rightarrow> 'a list" where
  "set_add x s = (if x \<in> set s then s else s @ [x])"

definition set_delete :: "'a \<Rightarrow> 'a list \<Rightarrow> 'a list" where
  "set_delete x s = removeAll x s"

record SpatialGrid =
  cellSize :: real
  grid :: "cell \<rightharpoonup> oid list"
  objectMap :: "oid \<rightharpoonup> cell"

definition newSpatialGrid :: "real \<Rightarrow> SpatialGrid" where
  "newSpatialGrid cs = \<lparr>cellSize = cs, grid = Map.empty, objectMap = Map.empty\<rparr>"

definition getGridKey :: "SpatialGrid \<Rightarrow> vec3 \<Rightarrow> cell" where
  "getGridKey g position =
     (\<lfloor>vx position / cellSize g\<rfloor>, \<lfloor>vy position / cellSize g\<rfloor>, \<lfloor>vz position / cellSize g\<rfloor>)"

definition remove :: "SpatialGrid \<Rightarrow> oid \<Rightarrow> SpatialGrid" where
  "remove g object =
     (let g1 = (case objectMap g object of
                  None \<Rightarrow> g
                | Some key \<Rightarrow>
                    (case grid g key of
                       None \<Rightarrow> g
                     | Some s \<Rightarrow>
                         (let s' = set_delete object s
                          in if s' = [] then g\<lparr>grid := (grid g)(key := None)\<rparr>
                             else g\<lparr>grid := (grid g)(key \<mapsto> s')\<rparr>)))
      in g1\<lparr>objectMap := (objectMap g1)(object := None)\<rparr>)"

definition insert_grid :: "SpatialGrid \<Rightarrow> oid \<Rightarrow> vec3 \<Rightarrow> SpatialGrid" where
  "insert_grid g object position =
     (let key = getGridKey g position;
          g1 = remove g object;
          s = (case grid g1 key of None \<Rightarrow> [] | Some s \<Rightarrow> s)
      in g1\<lparr>grid := (grid g1)(key \<mapsto> set_add object s),
            objectMap := (objectMap g1)(object \<mapsto> key)\<rparr>)"

definition clear_grid :: "SpatialGrid \<Rightarrow> SpatialGrid" where
  "clear_grid g = g\<lparr>grid := Map.empty, objectMap := Map.empty\<rparr>"

text \<open>
  \<open>getNearby\<close>: the three nested loops enumerate the keys from \<open>center - cellRadius\<close>
  to \<open>center + cellRadius\<close> on each axis, \<open>x\<close> outermost; the objects of every cell
  present are added to the result \<open>Set\<close>, which is returned as an array.
\<close>

definition nearbyKeys :: "cell \<Rightarrow> int \<Rightarrow> cell list" where
  "nearbyKeys c cellRadius =
     (case c of (centerX, centerY, centerZ) \<Rightarrow>
        concat (map (\<lambda>x.
          concat (map (\<lambda>y.
            map (\<lambda>z. (x, y, z)) [centerZ - cellRadius .. centerZ + cellRadius])
          [centerY - cellRadius .. centerY + cellRadius]))
        [centerX - cellRadius .. centerX + cellRadius]))"

definition getNearby :: "SpatialGrid \<Rightarrow> vec3 \<Rightarrow> real \<Rightarrow> oid list" where
  "getNearby g position radius =
     (let cellRadius = \<lceil>radius / cellSize g\<rceil>;
          centerKey = getGridKey g position
      in fold (\<lambda>key nearbyObjects.
                 case grid g key of
                   None \<Rightarrow> nearbyObjects
                 | Some s \<Rightarrow> fold set_add s nearbyObjects)
              (nearbyKeys centerKey cellRadius) [])"

section \<open>Scene objects, snakes and the game state\<close>

text \<open>
  A scene object (\<open>THREE.Object3D\<close>) carries the fields the simulation reads: its
  position, its Euler rotation (\<open>x\<close>, \<open>y\<close>, \<open>z\<close>), whether it has a parent in the
  scene graph, and the type of its material if it has one. Objects are mutable and
  shared by reference: the store \<open>objects\<close> maps an identity to the current fields.
  Meshes, colours, particle trails and sounds only feed the renderer and the audio
  output and are left out.
\<close>

datatype material = ShaderMaterial | LineBasicMaterial | MeshBasicMaterial | MeshPhysicalMaterial

record object3d =
  position :: vec3
  rotation :: vec3
  parent :: bool
  material :: "material option"

record face =
  mesh :: oid
  line :: oid

text \<open>
  The fields of \<open>Snake\<close>. A snake is identified by its head object, which the
  constructor creates and nothing else shares.
\<close>

record snake =
  isPlayer :: bool
  direction :: vec3
  speed :: real
  segments :: "oid list"
  trail :: "vec3 list"
  head :: oid
  colorOffset :: real
  snakeLength :: nat
  creationTime :: real
  isInitialReflectionPhase :: bool
  targetDirection :: vec3
  nibblesEaten :: nat

record settings =
  settings_speed :: real
  settings_shadowSpeed :: real
  settings_spawnRate :: real
  settings_trailLength :: nat

text \<open>
  Three.js itself is not part of the repository. What the simulation takes from it
  beyond vector arithmetic is a parameter: the world direction of an object with a given
  rotation, the rotation \<open>lookAt\<close> gives an object at a position looking at a target,
  and the length of and the points on the Catmull-Rom curve through a trail.
\<close>

record three =
  getWorldDirection :: "vec3 \<Rightarrow> vec3"
  lookAt :: "vec3 \<Rightarrow> vec3 \<Rightarrow> vec3"
  getLength :: "vec3 list \<Rightarrow> real"
  getPointAt :: "vec3 list \<Rightarrow> real \<Rightarrow> vec3"

text \<open>
  The state of \<open>Game\<close> with the systems it owns. \<open>randoms\<close> and \<open>clock\<close> are the
  results the coming calls of \<open>Math.random()\<close> and \<open>performance.now()\<close> will return,
  \<open>nextId\<close> is the identity of the next object created, \<open>timers\<close> holds for each
  pending \<open>setTimeout\<close> callback its delay origin and the shadow snake it closes over,
  and \<open>collisionChecks\<close> is the counter of the performance monitor.
\<close>

record game =
  objects :: "oid \<Rightarrow> object3d"
  nextId :: oid
  spatialGrid :: SpatialGrid
  faces :: "face list"
  nibbles :: "oid list"
  playerSnake :: "snake option"
  shadowSnakes :: "snake list"
  isGameOver :: bool
  gameStarted :: bool
  isPaused :: bool
  score :: nat
  lastSpawnTime :: real
  lastShadowSpawnTime :: real
  isShadowSnakeInvulnerable :: bool
  gameSettings :: settings
  randoms :: "nat \<Rightarrow> real"
  clock :: "nat \<Rightarrow> real"
  timers :: "(real \<times> oid) list"
  collisionChecks :: nat

definition random :: "game \<Rightarrow> real \<times> game" where
  "random G = (randoms G 0, G\<lparr>randoms := (\<lambda>i. randoms G (Suc i))\<rparr>)"

definition now :: "game \<Rightarrow> real \<times> game" where
  "now G = (clock G 0, G\<lparr>clock := (\<lambda>i. clock G (Suc i))\<rparr>)"

definition newObject :: "material option \<Rightarrow> game \<Rightarrow> oid \<times> game" where
  "newObject m G =
     (nextId G,
      G\<lparr>nextId := Suc (nextId G),
        objects := (objects G)(nextId G :=
          \<lparr>position = Vec3 0 0 0, rotation = Vec3 0 0 0, parent = False, material = m\<rparr>)\<rparr>)"

definition sceneAdd :: "oid \<Rightarrow> game \<Rightarrow> game" where
  "sceneAdd ob G = G\<lparr>objects := (objects G)(ob := (objects G ob)\<lparr>parent := True\<rparr>)\<rparr>"

definition sceneRemove :: "oid \<Rightarrow> game \<Rightarrow> game" where
  "sceneRemove ob G = G\<lparr>objects := (objects G)(ob := (objects G ob)\<lparr>parent := False\<rparr>)\<rparr>"

definition setPosition :: "oid \<Rightarrow> vec3 \<Rightarrow> game \<Rightarrow> game" where
  "setPosition ob p G = G\<lparr>objects := (objects G)(ob := (objects G ob)\<lparr>position := p\<rparr>)\<rparr>"

definition setRotation :: "oid \<Rightarrow> vec3 \<Rightarrow> game \<Rightarrow> game" where
  "setRotation ob r G = G\<lparr>objects := (objects G)(ob := (objects G ob)\<lparr>rotation := r\<rparr>)\<rparr>"

definition positionOf :: "game \<Rightarrow> oid \<Rightarrow> vec3" where
  "positionOf G ob = position (objects G ob)"

definition rotationOf :: "game \<Rightarrow> oid \<Rightarrow> vec3" where
  "rotationOf G ob = rotation (objects G ob)"

section \<open>CollisionSystem\<close>

definition isWallObject :: "game \<Rightarrow> oid \<Rightarrow> bool" where
  "isWallObject G object =
     (if \<not> parent (objects G object) then False
      else if material (objects G object) = Some ShaderMaterial then True
      else if material (objects G object) = Some LineBasicMaterial then True
      else list_ex (\<lambda>f. object = mesh f \<or> object = line f) (faces G))"

definition updateObject :: "game \<Rightarrow> oid \<Rightarrow> vec3 \<Rightarrow> game" where
  "updateObject G object pos =
     (if isWallObject G object then G
      else G\<lparr>spatialGrid := insert_grid (spatialGrid G) object pos\<rparr>)"

definition removeObject :: "game \<Rightarrow> oid \<Rightarrow> game" where
  "removeObject G object =
     (if isWallObject G object then G
      else G\<lparr>spatialGrid := remove (spatialGrid G) object\<rparr>)"

text \<open>
  A collision record of \<open>checkCollisions\<close>. The \<open>snake\<close> of a shadow collision is a
  reference in the source; the fields the resolution reads through it (\<open>head\<close>,
  \<open>segments\<close>, \<open>isPlayer\<close>, \<open>nibblesEaten\<close>) do not change while a list of collisions
  is resolved, so the record holds the snake as it is when the collision is found.
\<close>

datatype collision =
  PlayerCollision (object: oid) (distance: real)
| ShadowCollision (csnake: snake) (object: oid) (distance: real)

definition playerCollisions :: "game \<Rightarrow> snake \<Rightarrow> collision list" where
  "playerCollisions G ps =
     (let headPosition = positionOf G (head ps);
          nearbyObjects = getNearby (spatialGrid G) headPosition (COLLISION_DISTANCE * 2)
      in concat (map (\<lambda>obj.
           if obj = head ps then []
           else if isWallObject G obj then []
           else if obj \<in> set (segments ps) then []
           else (let d = distanceTo headPosition (positionOf G obj)
                 in if d < COLLISION_DISTANCE then [PlayerCollision obj d] else []))
         nearbyObjects))"

definition shadowCollisions :: "game \<Rightarrow> snake \<Rightarrow> collision list" where
  "shadowCollisions G shadow =
     (let headPosition = positionOf G (head shadow);
          nearbyShadowObjects = getNearby (spatialGrid G) headPosition (COLLISION_DISTANCE * 2)
      in concat (map (\<lambda>obj.
           if obj = head shadow then []
           else if isWallObject G obj then []
           else (let d = distanceTo headPosition (positionOf G obj)
                 in if d < COLLISION_DISTANCE then [ShadowCollision shadow obj d] else []))
         nearbyShadowObjects))"

text \<open>
  \<open>checkCollisions\<close> counts the check in the performance monitor and returns the
  collisions of the player's head followed by those of each shadow head. Its test
  \<open>obj === playerSnake\<close> compares a scene object with a \<open>Snake\<close> and never holds.
\<close>

definition checkCollisions :: "game \<Rightarrow> collision list \<times> game" where
  "checkCollisions G =
     (let G1 = G\<lparr>collisionChecks := Suc (collisionChecks G)\<rparr>
      in case playerSnake G1 of
           None \<Rightarrow> ([], G1)
         | Some ps \<Rightarrow>
             (playerCollisions G1 ps @ concat (map (shadowCollisions G1) (shadowSnakes G1)), G1))"

section \<open>NibbleManager\<close>

text \<open>
  \<open>Array.prototype.findIndex\<close> and \<open>indexOf\<close>: the first index whose element
  qualifies, or \<open>-1\<close>.
\<close>

fun findIndex :: "('a \<Rightarrow> bool) \<Rightarrow> 'a list \<Rightarrow> int" where
  "findIndex P [] = - 1"
| "findIndex P (x # xs) =
     (if P x then 0 else (let i = findIndex P xs in if i = - 1 then - 1 else i + 1))"

definition indexOf :: "'a list \<Rightarrow> 'a \<Rightarrow> int" where
  "indexOf xs x = findIndex (\<lambda>y. y = x) xs"

definition create :: "game \<Rightarrow> oid \<times> game" where
  "create G = newObject (Some MeshBasicMaterial) G"

text \<open>
  The \<open>do ... while (!isSafe)\<close> loop of \<open>spawn\<close>. Each round draws three random
  numbers. \<open>continue\<close> in a \<open>do\<close>-\<open>while\<close> jumps to the test of the loop condition,
  which reads the \<open>isSafe\<close> left by the rounds before; \<open>break\<close> leaves the loop with
  the position just sampled. The loop may run forever, so its result is optional:
  \<open>None\<close> stands for a search that never returns.
\<close>

partial_function (option) spawnSearch ::
  "game \<Rightarrow> (nat \<Rightarrow> real) \<Rightarrow> nat \<Rightarrow> bool \<Rightarrow> (vec3 \<times> (nat \<Rightarrow> real) \<times> nat) option"
where
  "spawnSearch G rnd tries isSafe =
     (let maxTries = 100;
          x = (rnd 0 - 0.5) * CUBE_SIZE;
          y = (rnd 1 - 0.5) * CUBE_SIZE;
          z = (rnd 2 - 0.5) * CUBE_SIZE;
          pos = Vec3 x y z;
          rnd' = (\<lambda>i. rnd (i + 3));
          isNearWall = (\<bar>x\<bar> > CUBE_HALF_SIZE - SAFE_WALL_DISTANCE \<or>
                        \<bar>y\<bar> > CUBE_HALF_SIZE - SAFE_WALL_DISTANCE \<or>
                        \<bar>z\<bar> > CUBE_HALF_SIZE - SAFE_WALL_DISTANCE)
      in if isNearWall then
           (if \<not> isSafe then spawnSearch G rnd' (tries + 1) isSafe
            else Some (pos, rnd', tries + 1))
         else
           (let nearbyObjects = getNearby (spatialGrid G) pos (SAFE_OBJECT_DISTANCE * 2);
                isSafe' = (\<not> list_ex (\<lambda>obj.
                             distanceSquared pos (positionOf G obj)
                               < SAFE_OBJECT_DISTANCE * SAFE_OBJECT_DISTANCE) nearbyObjects);
                tries' = tries + 1
            in if tries' > maxTries then Some (pos, rnd', tries')
               else if \<not> isSafe' then spawnSearch G rnd' tries' isSafe'
               else Some (pos, rnd', tries')))"

definition spawn :: "game \<Rightarrow> game option" where
  "spawn G =
     (case create G of (nibble, G1) \<Rightarrow>
        (case spawnSearch G1 (randoms G1) 0 False of
           None \<Rightarrow> None
         | Some (pos, rnd, tries) \<Rightarrow>
             (let G2 = setPosition nibble pos (G1\<lparr>randoms := rnd\<rparr>);
                  G3 = sceneAdd nibble G2;
                  G4 = G3\<lparr>nibbles := nibbles G3 @ [nibble]\<rparr>
              in Some (updateObject G4 nibble (positionOf G4 nibble)))))"

definition removeByIndex :: "int \<Rightarrow> game \<Rightarrow> game" where
  "removeByIndex index G =
     (if index \<ge> 0 \<and> index < int (length (nibbles G)) then
        (let nibble = nibbles G ! nat index;
             G1 = sceneRemove nibble G;
             G2 = removeObject G1 nibble
         in G2\<lparr>nibbles := take (nat index) (nibbles G2) @ drop (Suc (nat index)) (nibbles G2)\<rparr>)
      else G)"

definition findNearby :: "game \<Rightarrow> vec3 \<Rightarrow> int" where
  "findNearby G pos =
     (let threshold = 2.25
      in findIndex (\<lambda>nibble. distanceSquared pos (positionOf G nibble) < threshold) (nibbles G))"

definition createAt :: "vec3 \<Rightarrow> bool \<Rightarrow> game \<Rightarrow> game" where
  "createAt pos randomize G =
     (case create G of (nibble, G1) \<Rightarrow>
        (let G2 = setPosition nibble pos G1;
             G3 = (if randomize then
                     (case random G2 of (r1, Ga) \<Rightarrow>
                      case random Ga of (r2, Gb) \<Rightarrow>
                      case random Gb of (r3, Gc) \<Rightarrow>
                        setPosition nibble
                          (Vec3 (vx pos + (r1 - 0.5) * 2) (vy pos + (r2 - 0.5) * 2)
                                (vz pos + (r3 - 0.5) * 2)) Gc)
                   else G2);
             G4 = sceneAdd nibble G3;
             G5 = G4\<lparr>nibbles := nibbles G4 @ [nibble]\<rparr>
         in updateObject G5 nibble (positionOf G5 nibble)))"

section \<open>Snake\<close>

definition addSegment :: "bool \<Rightarrow> snake \<Rightarrow> game \<Rightarrow> snake \<times> game" where
  "addSegment initial s G =
     (let lastPosition = (if length (segments s) > 0 then positionOf G (last (segments s))
                          else positionOf G (head s));
          newPosition = sub lastPosition (multiplyScalar (direction s) SEGMENT_SPACING)
      in case newObject (Some MeshBasicMaterial) G of (segment, G1) \<Rightarrow>
           (let G2 = setPosition segment newPosition G1;
                G3 = sceneAdd segment G2;
                s1 = s\<lparr>segments := segments s @ [segment]\<rparr>;
                G4 = updateObject G3 segment (positionOf G3 segment);
                s2 = (if \<not> initial then s1\<lparr>snakeLength := snakeLength s1 + 1\<rparr> else s1)
            in (s2, G4)))"

text \<open>
  The constructor with \<open>_init\<close>: the head is created at the origin, added to the scene
  and to the grid, five initial segments follow, and the trail is laid out behind the
  head.
\<close>

definition newSnake :: "bool \<Rightarrow> game \<Rightarrow> snake \<times> game" where
  "newSnake player G =
     (case newObject None G of (h, G1) \<Rightarrow>
      case random G1 of (r, G2) \<Rightarrow>
        (let s0 = \<lparr>isPlayer = player, direction = Vec3 0 0 (- 1),
                   speed = (if player then settings_speed (gameSettings G2)
                            else settings_shadowSpeed (gameSettings G2)),
                   segments = [], trail = [], head = h, colorOffset = r * pi * 2,
                   snakeLength = 5, creationTime = 0, isInitialReflectionPhase = False,
                   targetDirection = Vec3 0 0 0, nibblesEaten = 0\<rparr>;
             G3 = sceneAdd h G2;
             G4 = updateObject G3 h (positionOf G3 h)
         in case fold (\<lambda>i (s, G). addSegment True s G) [0 ..< snakeLength s0] (s0, G4) of
              (s1, G5) \<Rightarrow>
                (s1\<lparr>trail := map (\<lambda>i. add (positionOf G5 h)
                                    (multiplyScalar (direction s1) (- real i * SEGMENT_SPACING)))
                                 [0 ..< settings_trailLength (gameSettings G5)]\<rparr>, G5)))"

definition closestNibble :: "game \<Rightarrow> vec3 \<Rightarrow> (oid \<times> real) option" where
  "closestNibble G headPosition =
     fold (\<lambda>nibble closest.
             (let d = distanceTo headPosition (positionOf G nibble)
              in case closest of
                   None \<Rightarrow> Some (nibble, d)
                 | Some (best, closestDistance) \<Rightarrow>
                     if d < closestDistance then Some (nibble, d) else closest))
          (nibbles G) None"

definition seekNibbles :: "snake \<Rightarrow> game \<Rightarrow> snake \<times> game" where
  "seekNibbles s G =
     (if length (nibbles G) = 0 then (s, G)
      else
        (case closestNibble G (positionOf G (head s)) of
           Some (closest, closestDistance) \<Rightarrow>
             (if closestDistance > 2 then
                (let directionToNibble =
                       getDirection (positionOf G (head s)) (positionOf G closest);
                     targetRotation = atan2 (vx directionToNibble) (vz directionToNibble);
                     rot = rotationOf G (head s);
                     currentRotation = vy rot;
                     rotationSpeed = 0.08
                 in case random G of (r, G1) \<Rightarrow>
                      (let randomOffset = (r - 0.5) * 0.05;
                           roty = vy rot
                                  + (targetRotation - currentRotation + randomOffset) * rotationSpeed;
                           targetYRotation =
                             atan2 (- vy directionToNibble)
                                   (sqrt ((vx directionToNibble)\<^sup>2 + (vz directionToNibble)\<^sup>2));
                           rotx = vx rot + (targetYRotation - vx rot) * rotationSpeed * 0.5
                       in (s, setRotation (head s) (Vec3 rotx roty (vz rot)) G1)))
              else (s\<lparr>speed := settings_shadowSpeed (gameSettings G) * 0.5\<rparr>, G))
         | None \<Rightarrow>
             (case now G of (t, G1) \<Rightarrow>
                (let time = t * 0.001;
                     gentleWander = sin (time * 0.5 + colorOffset s) * 0.02;
                     rot = rotationOf G1 (head s)
                 in (s\<lparr>speed := settings_shadowSpeed (gameSettings G)\<rparr>,
                     setRotation (head s) (Vec3 (vx rot) (vy rot + gentleWander) (vz rot)) G1)))))"

text \<open>
  \<open>_avoidWalls\<close> reads and writes the position and the rotation of the head only; it
  is given on the head object, and \<open>avoidWalls\<close> applies it to the head in the store.
\<close>

definition steerVector :: "vec3 \<Rightarrow> vec3" where
  "steerVector pos =
     (let safeBoundary = CUBE_HALF_SIZE - WALL_BUFFER
      in Vec3 (if vx pos > safeBoundary then - 1 else if vx pos < - safeBoundary then 1 else 0)
              (if vy pos > safeBoundary then - 1 else if vy pos < - safeBoundary then 1 else 0)
              (if vz pos > safeBoundary then - 1 else if vz pos < - safeBoundary then 1 else 0))"

definition needsTurn :: "vec3 \<Rightarrow> bool" where
  "needsTurn pos =
     (let safeBoundary = CUBE_HALF_SIZE - WALL_BUFFER
      in vx pos > safeBoundary \<or> vx pos < - safeBoundary \<or>
         vy pos > safeBoundary \<or> vy pos < - safeBoundary \<or>
         vz pos > safeBoundary \<or> vz pos < - safeBoundary)"

definition avoidWallsHead :: "object3d \<Rightarrow> object3d" where
  "avoidWallsHead h =
     (let pos = position h
      in if \<not> needsTurn pos then h
         else
           (let lo = - CUBE_HALF_SIZE + SEGMENT_RADIUS;
                hi = CUBE_HALF_SIZE - SEGMENT_RADIUS;
                pos' = Vec3 (min (max (vx pos) lo) hi) (min (max (vy pos) lo) hi)
                            (min (max (vz pos) lo) hi);
                steer = normalize (steerVector pos);
                targetRotation = atan2 (vx steer) (vz steer);
                rotationSpeed = 0.12;
                rot = rotation h;
                roty = vy rot + (targetRotation - vy rot) * rotationSpeed;
                targetYRotation = atan2 (- vy steer) (sqrt ((vx steer)\<^sup>2 + (vz steer)\<^sup>2));
                rotx = vx rot + (targetYRotation - vx rot) * rotationSpeed * 0.5
            in h\<lparr>position := pos', rotation := Vec3 rotx roty (vz rot)\<rparr>))"

definition avoidWalls :: "snake \<Rightarrow> game \<Rightarrow> game" where
  "avoidWalls s G = G\<lparr>objects := (objects G)(head s := avoidWallsHead (objects G (head s)))\<rparr>"

text \<open>\<open>trail.unshift(p)\<close> followed by one \<open>pop\<close> when the trail is over its capacity.\<close>

definition pushTrail :: "nat \<Rightarrow> vec3 \<Rightarrow> vec3 list \<Rightarrow> vec3 list" where
  "pushTrail trailLength p tr =
     (let t = p # tr in if length t > trailLength then butlast t else t)"

definition updateSegment :: "three \<Rightarrow> snake \<Rightarrow> real \<Rightarrow> nat \<Rightarrow> game \<Rightarrow> game" where
  "updateSegment T s time i G =
     (let segment = segments s ! i;
          pathLength = getLength T (trail s);
          p = (if pathLength > 0 then
                 getPointAt T (trail s) (min ((real i + 1) * SEGMENT_SPACING / pathLength) 1)
               else moveForward (positionOf G (head s))
                      (getWorldDirection T (rotationOf G (head s)))
                      (- (real i + 1) * SEGMENT_SPACING));
          segWiggle = sin (time * 5 + real i * 0.5 + colorOffset s) * 0.3;
          G1 = setPosition segment (Vec3 (vx p + segWiggle * 0.05) (vy p) (vz p)) G
      in if isPlayer s then updateObject G1 segment (positionOf G1 segment) else G1)"

definition aiStep :: "snake \<Rightarrow> game \<Rightarrow> snake \<times> game" where
  "aiStep s G =
     (if \<not> isPlayer s then
        (case (if \<not> isInitialReflectionPhase s then seekNibbles s G else (s, G)) of
           (s', G') \<Rightarrow> (s', avoidWalls s' G'))
      else (s, G))"

definition update :: "three \<Rightarrow> real \<Rightarrow> snake \<Rightarrow> game \<Rightarrow> snake \<times> game" where
  "update T delta s G =
     (let s1 = s\<lparr>direction := getWorldDirection T (rotationOf G (head s))\<rparr>;
          moveDistance = speed s1 * delta * 60;
          G1 = setPosition (head s1)
                 (add (positionOf G (head s1)) (multiplyScalar (direction s1) moveDistance)) G
      in case aiStep s1 G1 of (s2, G2) \<Rightarrow>
         case now G2 of (t, G3) \<Rightarrow>
           (let time = t * 0.001;
                wiggle = sin (time * 5 + colorOffset s2) * 0.5;
                hp = positionOf G3 (head s2);
                G4 = setPosition (head s2) (Vec3 (vx hp) (vy hp + wiggle * 0.1) (vz hp)) G3;
                s3 = s2\<lparr>trail := pushTrail (settings_trailLength (gameSettings G4))
                                     (positionOf G4 (head s2)) (trail s2)\<rparr>;
                G5 = fold (updateSegment T s3 time) [0 ..< length (segments s3)] G4
            in (s3, if isPlayer s3 then updateObject G5 (head s3) (positionOf G5 (head s3))
                    else G5)))"

section \<open>Game\<close>

subsection \<open>Boundary crossing and shadow snakes\<close>

definition isInsideCube :: "vec3 \<Rightarrow> bool" where
  "isInsideCube p =
     (\<bar>vx p\<bar> \<le> CUBE_HALF_SIZE \<and> \<bar>vy p\<bar> \<le> CUBE_HALF_SIZE \<and> \<bar>vz p\<bar> \<le> CUBE_HALF_SIZE)"

definition previousPosition :: "vec3 list \<Rightarrow> vec3 \<Rightarrow> vec3 \<Rightarrow> vec3" where
  "previousPosition tr dir pos =
     (if length tr > 1 then tr ! 1
      else if length tr > 0 then tr ! 0
      else sub pos (multiplyScalar dir SEGMENT_SPACING))"

text \<open>
  The part of \<open>_checkCubeBoundary\<close> between the previous position and the call of
  \<open>_spawnShadowSnake\<close>: the wall hit point and the normal handed to the spawn, or
  \<open>None\<close> when the method returns without spawning. \<open>Math.sign\<close> is \<open>sgn\<close>.
\<close>

definition wallCrossing :: "vec3 \<Rightarrow> vec3 \<Rightarrow> (vec3 \<times> vec3) option" where
  "wallCrossing prevPos pos =
     (let halfSize = CUBE_HALF_SIZE;
          wasInside = isInsideCube prevPos;
          isInside = isInsideCube pos
      in if \<not> wasInside \<or> isInside then None
         else if \<bar>vx pos\<bar> > halfSize \<and> \<bar>vx prevPos\<bar> \<le> halfSize then
           Some (Vec3 (sgn (vx pos) * halfSize) (vy pos) (vz pos), Vec3 (- sgn (vx pos)) 0 0)
         else if \<bar>vy pos\<bar> > halfSize \<and> \<bar>vy prevPos\<bar> \<le> halfSize then
           Some (Vec3 (vx pos) (sgn (vy pos) * halfSize) (vz pos), Vec3 0 (- sgn (vy pos)) 0)
         else if \<bar>vz pos\<bar> > halfSize \<and> \<bar>vz prevPos\<bar> \<le> halfSize then
           Some (Vec3 (vx pos) (vy pos) (sgn (vz pos) * halfSize), Vec3 0 0 (- sgn (vz pos)))
         else None)"

text \<open>
  \<open>_spawnShadowSnake\<close>. It is reached from \<open>_checkCubeBoundary\<close> only, where the
  player snake exists. The callback given to \<open>setTimeout\<close> is recorded in \<open>timers\<close>
  and run by \<open>timeoutCallback\<close>.
\<close>

definition spawnShadowSnake :: "three \<Rightarrow> vec3 \<Rightarrow> vec3 \<Rightarrow> game \<Rightarrow> game" where
  "spawnShadowSnake T wallHitPoint normal G =
     (case now G of (currentTime, G1) \<Rightarrow>
        if currentTime - lastShadowSpawnTime G1 < SHADOW_SPAWN_DELAY then G1
        else
          (let G2 = G1\<lparr>lastShadowSpawnTime := currentTime, isShadowSnakeInvulnerable := True\<rparr>
           in case newSnake False G2 of (shadowSnake, G3) \<Rightarrow>
             (let insetAmount = 2;
                  spawnPosition =
                    Vec3 (if \<bar>vx wallHitPoint\<bar> \<ge> CUBE_HALF_SIZE
                          then sgn (vx wallHitPoint) * (CUBE_HALF_SIZE - insetAmount)
                          else vx wallHitPoint)
                         (if \<bar>vy wallHitPoint\<bar> \<ge> CUBE_HALF_SIZE
                          then sgn (vy wallHitPoint) * (CUBE_HALF_SIZE - insetAmount)
                          else vy wallHitPoint)
                         (if \<bar>vz wallHitPoint\<bar> \<ge> CUBE_HALF_SIZE
                          then sgn (vz wallHitPoint) * (CUBE_HALF_SIZE - insetAmount)
                          else vz wallHitPoint);
                  G4 = setPosition (head shadowSnake) spawnPosition G3;
                  playerDirection =
                    (case playerSnake G4 of
                       Some ps \<Rightarrow> getWorldDirection T (rotationOf G4 (head ps))
                     | None \<Rightarrow> Vec3 0 0 0);
                  reflectedDirection = reflect playerDirection normal;
                  lookAtPos = moveForward (positionOf G4 (head shadowSnake)) reflectedDirection 1;
                  G5 = setRotation (head shadowSnake)
                         (lookAt T (positionOf G4 (head shadowSnake)) lookAtPos) G4;
                  shadow = shadowSnake\<lparr>creationTime := currentTime,
                                         isInitialReflectionPhase := True,
                                         targetDirection := reflectedDirection,
                                         speed := settings_shadowSpeed (gameSettings G5),
                                         nibblesEaten := 0\<rparr>
              in G5\<lparr>shadowSnakes := shadowSnakes G5 @ [shadow],
                    timers := timers G5 @ [(currentTime, head shadow)]\<rparr>)))"

definition timeoutCallback :: "oid \<Rightarrow> game \<Rightarrow> game" where
  "timeoutCallback shadowHead G =
     G\<lparr>isShadowSnakeInvulnerable := False,
       shadowSnakes := map (\<lambda>s. if head s = shadowHead
                                  then s\<lparr>isInitialReflectionPhase := False\<rparr> else s)
                           (shadowSnakes G)\<rparr>"

definition checkCubeBoundary :: "three \<Rightarrow> game \<Rightarrow> game" where
  "checkCubeBoundary T G =
     (case playerSnake G of
        None \<Rightarrow> G
      | Some ps \<Rightarrow>
          if \<not> isPlayer ps then G
          else
            (let pos = positionOf G (head ps);
                 prevPos = previousPosition (trail ps) (direction ps) pos
             in case wallCrossing prevPos pos of
                  None \<Rightarrow> G
                | Some (wallHitPoint, normal) \<Rightarrow> spawnShadowSnake T wallHitPoint normal G))"

subsection \<open>Nibble collection\<close>

fun collectShadows :: "nat list \<Rightarrow> game \<Rightarrow> game option" where
  "collectShadows [] G = Some G"
| "collectShadows (i # rest) G =
     (let snake = shadowSnakes G ! i;
          nibbleIndex = findNearby G (positionOf G (head snake))
      in if nibbleIndex \<noteq> - 1 then
           (let G1 = removeByIndex nibbleIndex G
            in case addSegment False snake G1 of (s1, G2) \<Rightarrow>
                 (let s2 = s1\<lparr>nibblesEaten := nibblesEaten s1 + 1\<rparr>;
                      G3 = G2\<lparr>shadowSnakes := (shadowSnakes G2)[i := s2]\<rparr>
                  in case spawn G3 of None \<Rightarrow> None | Some G4 \<Rightarrow> collectShadows rest G4))
         else collectShadows rest G)"

definition collectPlayer :: "game \<Rightarrow> game option" where
  "collectPlayer G =
     (case playerSnake G of
        None \<Rightarrow> Some G
      | Some ps \<Rightarrow>
          (let playerNibbleIndex = findNearby G (positionOf G (head ps))
           in if playerNibbleIndex \<noteq> - 1 then
                (let G1 = removeByIndex playerNibbleIndex G
                 in case addSegment False ps G1 of (s1, G2) \<Rightarrow>
                      (let s2 = s1\<lparr>nibblesEaten := nibblesEaten s1 + 1\<rparr>;
                           G3 = G2\<lparr>playerSnake := Some s2, score := score G2 + 1\<rparr>
                       in spawn G3))
              else Some G))"

definition checkNibbleCollection :: "real \<Rightarrow> game \<Rightarrow> game option" where
  "checkNibbleCollection time G =
     (case playerSnake G of
        None \<Rightarrow> Some G
      | Some ps \<Rightarrow>
          (case collectPlayer G of
             None \<Rightarrow> None
           | Some G1 \<Rightarrow>
               if \<lfloor>time * 60\<rfloor> mod 3 = 0
               then collectShadows [0 ..< length (shadowSnakes G1)] G1
               else Some G1))"

subsection \<open>Collision resolution and dissolution\<close>

definition clearTrail :: "oid \<Rightarrow> snake \<Rightarrow> snake" where
  "clearTrail h s = (if head s = h then s\<lparr>trail := []\<rparr> else s)"

definition dispose :: "snake \<Rightarrow> game \<Rightarrow> game" where
  "dispose s G =
     (let G1 = sceneRemove (head s) G;
          G2 = fold (\<lambda>segment G. removeObject (sceneRemove segment G) segment) (segments s) G1;
          G3 = removeObject G2 (head s)
      in G3\<lparr>playerSnake := map_option (clearTrail (head s)) (playerSnake G3),
            shadowSnakes := map (clearTrail (head s)) (shadowSnakes G3)\<rparr>)"

definition dissolveSnake :: "snake \<Rightarrow> game \<Rightarrow> game" where
  "dissolveSnake snake G =
     (let G1 = removeObject G (head snake);
          G2 = fold (\<lambda>segment G. removeObject G segment) (segments snake) G1;
          nibblesDropped = (if isPlayer snake
                            then min (length (segments snake)) (nibblesEaten snake)
                            else length (segments snake));
          G3 = fold (\<lambda>i G. createAt (positionOf G (segments snake ! i)) (\<not> isPlayer snake) G)
                    [0 ..< min nibblesDropped (length (segments snake))] G2;
          G4 = (if isPlayer snake then G3\<lparr>isGameOver := True\<rparr>
                else G3\<lparr>shadowSnakes := filter (\<lambda>s. head s \<noteq> head snake) (shadowSnakes G3)\<rparr>)
      in dispose snake G4)"

text \<open>
  The loop of \<open>_checkCollisions\<close> over the collisions found. \<open>return\<close> ends the loop,
  \<open>continue\<close> goes to the next collision.
\<close>

fun resolveCollisions :: "collision list \<Rightarrow> game \<Rightarrow> game" where
  "resolveCollisions [] G = G"
| "resolveCollisions (PlayerCollision obj d # rest) G =
     (case playerSnake G of
        None \<Rightarrow> G
      | Some ps \<Rightarrow>
          if obj = head ps then resolveCollisions rest G
          else if list_ex (\<lambda>shadow. obj \<in> set (segments shadow)) (shadowSnakes G)
          then dissolveSnake ps G
          else if obj \<in> set (segments ps) \<and> indexOf (segments ps) obj \<ge> 10
          then dissolveSnake ps G
          else resolveCollisions rest G)"
| "resolveCollisions (ShadowCollision shadow obj d # rest) G =
     (case playerSnake G of
        None \<Rightarrow> G
      | Some ps \<Rightarrow>
          if obj = head shadow then resolveCollisions rest G
          else if obj \<in> set (segments ps) then resolveCollisions rest (dissolveSnake shadow G)
          else
            (let G1 = (if list_ex (\<lambda>otherShadow. head otherShadow \<noteq> head shadow \<and>
                                      obj \<in> set (segments otherShadow)) (shadowSnakes G)
                       then dissolveSnake shadow G else G);
                 G2 = (if obj \<in> set (segments shadow) \<and> indexOf (segments shadow) obj \<ge> 10
                       then dissolveSnake shadow G1 else G1)
             in resolveCollisions rest G2))"

definition Game_checkCollisions :: "game \<Rightarrow> game" where
  "Game_checkCollisions G =
     (case checkCollisions G of (collisions, G1) \<Rightarrow> resolveCollisions collisions G1)"

subsection \<open>The frame update\<close>

text \<open>The remainder operator \<open>%\<close> of JavaScript on integers: the sign of the dividend.\<close>

definition js_rem :: "int \<Rightarrow> int \<Rightarrow> int" where
  "js_rem a b = sgn a * (\<bar>a\<bar> mod \<bar>b\<bar>)"

definition updatePlayer :: "three \<Rightarrow> real \<Rightarrow> game \<Rightarrow> game" where
  "updatePlayer T delta G =
     (case playerSnake G of
        None \<Rightarrow> G
      | Some ps \<Rightarrow> (case update T delta ps G of (ps', G') \<Rightarrow> G'\<lparr>playerSnake := Some ps'\<rparr>))"

definition updateShadow :: "three \<Rightarrow> real \<Rightarrow> real \<Rightarrow> nat \<Rightarrow> game \<Rightarrow> game" where
  "updateShadow T time delta index G =
     (if js_rem \<lfloor>time * 60\<rfloor> 2 = js_rem (int index) 2 then
        (case update T delta (shadowSnakes G ! index) G of
           (s', G') \<Rightarrow> G'\<lparr>shadowSnakes := (shadowSnakes G')[index := s']\<rparr>)
      else G)"

text \<open>
  \<open>_updateGameLogic\<close> up to the collision check, and the whole of it. The animation of
  the nibbles changes only their scale and the rotation of their glow.
\<close>

definition beforeCollisions :: "three \<Rightarrow> real \<Rightarrow> real \<Rightarrow> game \<Rightarrow> game option" where
  "beforeCollisions T time delta G =
     (let G1 = updatePlayer T delta G;
          G2 = fold (updateShadow T time delta) [0 ..< length (shadowSnakes G1)] G1;
          G3 = (if playerSnake G2 \<noteq> None then checkCubeBoundary T G2 else G2)
      in case checkNibbleCollection time G3 of
           None \<Rightarrow> None
         | Some G4 \<Rightarrow>
             (case now G4 of (currentTime, G5) \<Rightarrow>
                if currentTime - lastSpawnTime G5
                     > SPAWN_INTERVAL / settings_spawnRate (gameSettings G5)
                then (case spawn G5 of
                        None \<Rightarrow> None
                      | Some G6 \<Rightarrow> Some (G6\<lparr>lastSpawnTime := currentTime\<rparr>))
                else Some G5))"

definition updateGameLogic :: "three \<Rightarrow> real \<Rightarrow> real \<Rightarrow> game \<Rightarrow> game option" where
  "updateGameLogic T time delta G =
     (case beforeCollisions T time delta G of
        None \<Rightarrow> None
      | Some G6 \<Rightarrow>
          if playerSnake G6 \<noteq> None \<and> \<not> isShadowSnakeInvulnerable G6
          then Some (Game_checkCollisions G6)
          else Some G6)"

text \<open>
  One call of \<open>_animate\<close>, at the time \<open>time\<close> with the step \<open>delta\<close>: the game logic
  runs when the game has started and is neither over nor paused. Frames run one after
  the other; a timer callback runs between two frames.
\<close>

definition animate :: "three \<Rightarrow> real \<times> real \<Rightarrow> game \<Rightarrow> game option" where
  "animate T frame G =
     (if gameStarted G \<and> \<not> isGameOver G \<and> \<not> isPaused G
      then updateGameLogic T (fst frame) (snd frame) G
      else Some G)"

fun animateFrames :: "three \<Rightarrow> (real \<times> real) list \<Rightarrow> game \<Rightarrow> game option" where
  "animateFrames T [] G = Some G"
| "animateFrames T (frame # rest) G =
     (case animate T frame G of None \<Rightarrow> None | Some G' \<Rightarrow> animateFrames T rest G')"

section \<open>Properties of the spatial index: auxiliary notions\<close>

text \<open>
  The consistency of the two tables of a grid: every cell present is a non-empty
  duplicate-free set, and an object is in the cell \<open>k\<close> exactly when \<open>objectMap\<close>
  gives it the key \<open>k\<close>.
\<close>

definition gridInv :: "SpatialGrid \<Rightarrow> bool" where
  "gridInv g =
     ((\<forall>k s. grid g k = Some s \<longrightarrow> s \<noteq> [] \<and> distinct s) \<and>
      (\<forall>ob k. objectMap g ob = Some k \<longleftrightarrow> (\<exists>s. grid g k = Some s \<and> ob \<in> set s)))"

text \<open>
  The query as the specification words it: the cell with index \<open>k\<close> covers
  \<open>[k * cellSize, (k + 1) * cellSize)\<close> on an axis; the cube of side
  \<open>2 * ceil(radius / cellSize) * cellSize\<close> is centred on the centre of the cell of the
  position; \<open>specQuery\<close> is the set of tracked objects whose cell meets that cube.
\<close>

definition axisMeets :: "real \<Rightarrow> real \<Rightarrow> int \<Rightarrow> int \<Rightarrow> bool" where
  "axisMeets cs half k c =
     (real_of_int k * cs \<le> (real_of_int c + 1 / 2) * cs + half \<and>
      (real_of_int c + 1 / 2) * cs - half < (real_of_int k + 1) * cs)"

definition cellMeetsCube :: "SpatialGrid \<Rightarrow> vec3 \<Rightarrow> real \<Rightarrow> cell \<Rightarrow> bool" where
  "cellMeetsCube g p r k =
     (case k of (kx, ky, kz) \<Rightarrow>
      case getGridKey g p of (cx, cy, cz) \<Rightarrow>
        (let cs = cellSize g; half = (2 * real_of_int \<lceil>r / cs\<rceil> * cs) / 2
         in axisMeets cs half kx cx \<and> axisMeets cs half ky cy \<and> axisMeets cs half kz cz))"

definition specQuery :: "SpatialGrid \<Rightarrow> vec3 \<Rightarrow> real \<Rightarrow> oid set" where
  "specQuery g p r = {ob. \<exists>k. objectMap g ob = Some k \<and> cellMeetsCube g p r k}"

section \<open>Properties of the boundary monitor: auxiliary notions\<close>

text \<open>
  The choice of the crossed wall as the specification words it: the first axis, in the
  order \<open>x\<close>, \<open>y\<close>, \<open>z\<close>, on which the previous position is within the half-extent and
  the current one is beyond it; the hit point is the current position with that
  coordinate put on the face, the normal is minus the sign of that coordinate on that
  axis and zero on the others.
\<close>

datatype axis = AxisX | AxisY | AxisZ

fun coord :: "axis \<Rightarrow> vec3 \<Rightarrow> real" where
  "coord AxisX p = vx p"
| "coord AxisY p = vy p"
| "coord AxisZ p = vz p"

fun setCoord :: "axis \<Rightarrow> real \<Rightarrow> vec3 \<Rightarrow> vec3" where
  "setCoord AxisX c p = Vec3 c (vy p) (vz p)"
| "setCoord AxisY c p = Vec3 (vx p) c (vz p)"
| "setCoord AxisZ c p = Vec3 (vx p) (vy p) c"

definition specCrossedAxis :: "vec3 \<Rightarrow> vec3 \<Rightarrow> axis option" where
  "specCrossedAxis prevPos pos =
     find (\<lambda>a. \<bar>coord a prevPos\<bar> \<le> CUBE_HALF_SIZE \<and> \<bar>coord a pos\<bar> > CUBE_HALF_SIZE)
          [AxisX, AxisY, AxisZ]"

definition specCrossing :: "vec3 \<Rightarrow> vec3 \<Rightarrow> (vec3 \<times> vec3) option" where
  "specCrossing prevPos pos =
     map_option (\<lambda>a. (setCoord a (sgn (coord a pos) * CUBE_HALF_SIZE) pos,
                       setCoord a (- sgn (coord a pos)) (Vec3 0 0 0)))
                (specCrossedAxis prevPos pos)"

text \<open>
  The crossings a sequence of head positions produces, one frame per position: the
  update of the frame pushes the position on the trail, and the boundary check of the
  frame compares it with the previous trail sample. An entry \<open>Some (hit, normal)\<close> is a
  call of \<open>_spawnShadowSnake\<close>.
\<close>

fun crossingEvents :: "nat \<Rightarrow> vec3 \<Rightarrow> vec3 list \<Rightarrow> vec3 list \<Rightarrow> (vec3 \<times> vec3) option list" where
  "crossingEvents trailLength dir tr [] = []"
| "crossingEvents trailLength dir tr (p # ps) =
     (let tr' = pushTrail trailLength p tr
      in wallCrossing (previousPosition tr' dir p) p # crossingEvents trailLength dir tr' ps)"

section \<open>Properties of the frame update: auxiliary notions\<close>

text \<open>
  The part of the game state that only the orchestrating methods of \<open>Game\<close> write;
  the scene, the grid, the nibbles and the two input streams are outside it.
\<close>

definition control ::
  "game \<Rightarrow> bool \<times> nat \<times> bool \<times> snake list \<times> snake option \<times> real \<times> real \<times> settings \<times>
           face list \<times> nat \<times> bool \<times> bool \<times> (real \<times> oid) list" where
  "control G =
     (isGameOver G, collisionChecks G, isShadowSnakeInvulnerable G, shadowSnakes G,
      playerSnake G, lastShadowSpawnTime G, lastSpawnTime G, gameSettings G, faces G,
      score G, gameStarted G, isPaused G, timers G)"

text \<open>
  \<open>undisturbed G G'\<close>: between \<open>G\<close> and \<open>G'\<close> no collision was classified and no
  snake was dissolved. The counter of collision checks is the same, the game is over in
  \<open>G'\<close> only if it was in \<open>G\<close>, and the shadow snakes of \<open>G\<close> are still the first
  shadow snakes of \<open>G'\<close>, in the same order.
\<close>

definition undisturbed :: "game \<Rightarrow> game \<Rightarrow> bool" where
  "undisturbed G G' =
     (isGameOver G' = isGameOver G \<and>
      collisionChecks G' = collisionChecks G \<and>
      take (length (shadowSnakes G)) (map head (shadowSnakes G')) = map head (shadowSnakes G))"

section \<open>Example states\<close>

text \<open>
  Concrete states on which the theorems below are instantiated. \<open>exampleGame\<close> is a
  started game with the six cube faces (a shader mesh and a line loop each, objects 0 to
  11), the grid of cell size 10, the default settings, and no snake or nibble yet; the
  clock stands at 0 and \<open>Math.random()\<close> returns one half.
\<close>

definition exampleThree :: three where
  "exampleThree =
     \<lparr>getWorldDirection = (\<lambda>r. Vec3 1 0 0), lookAt = (\<lambda>p t. Vec3 0 0 0),
      getLength = (\<lambda>tr. 0), getPointAt = (\<lambda>tr u. Vec3 0 0 0)\<rparr>"

definition exampleObjects :: "oid \<Rightarrow> object3d" where
  "exampleObjects =
     (\<lambda>ob. \<lparr>position = Vec3 0 0 0, rotation = Vec3 0 0 0, parent = (ob < 12),
             material = (if ob < 12 then (if even ob then Some ShaderMaterial
                                          else Some LineBasicMaterial)
                         else None)\<rparr>)"

definition exampleGame :: game where
  "exampleGame =
     \<lparr>objects = exampleObjects, nextId = 12, spatialGrid = newSpatialGrid 10,
      faces = [\<lparr>mesh = 0, line = 1\<rparr>, \<lparr>mesh = 2, line = 3\<rparr>, \<lparr>mesh = 4, line = 5\<rparr>,
               \<lparr>mesh = 6, line = 7\<rparr>, \<lparr>mesh = 8, line = 9\<rparr>, \<lparr>mesh = 10, line = 11\<rparr>],
      nibbles = [], playerSnake = None, shadowSnakes = [], isGameOver = False,
      gameStarted = True, isPaused = False, score = 0, lastSpawnTime = 0,
      lastShadowSpawnTime = 0, isShadowSnakeInvulnerable = False,
      gameSettings = \<lparr>settings_speed = 0.3, settings_shadowSpeed = 0.4,
                       settings_spawnRate = 3, settings_trailLength = 50\<rparr>,
      randoms = (\<lambda>i. 1 / 2), clock = (\<lambda>i. 0), timers = [], collisionChecks = 0\<rparr>"

text \<open>A snake with the given head object, segments and trail, at rest.\<close>

definition exampleSnake :: "bool \<Rightarrow> oid \<Rightarrow> oid list \<Rightarrow> vec3 list \<Rightarrow> snake" where
  "exampleSnake player h segs tr =
     \<lparr>isPlayer = player, direction = Vec3 1 0 0, speed = (if player then 0.3 else 0.4),
      segments = segs, trail = tr, head = h, colorOffset = 0, snakeLength = length segs,
      creationTime = 0, isInitialReflectionPhase = False, targetDirection = Vec3 0 0 0,
      nibblesEaten = 0\<rparr>"

text \<open>
  \<open>placeObject\<close> puts a head (no material) or a body segment or nibble (basic
  material) of the scene at a position, tracked by the grid at that position.
\<close>

definition placeObject :: "oid \<Rightarrow> material option \<Rightarrow> vec3 \<Rightarrow> game \<Rightarrow> game" where
  "placeObject ob m p G =
     (let G1 = G\<lparr>objects := (objects G)(ob :=
                   \<lparr>position = p, rotation = Vec3 0 0 0, parent = True, material = m\<rparr>),
                 nextId := max (nextId G) (Suc ob)\<rparr>
      in updateObject G1 ob p)"

text \<open>The player has just left the cube through the face \<open>x = 50\<close>.\<close>

definition crossingGame :: game where
  "crossingGame =
     (placeObject 12 None (Vec3 51 0 0) exampleGame)
       \<lparr>playerSnake := Some (exampleSnake True 12 [] [Vec3 51 0 0, Vec3 49 0 0])\<rparr>"

text \<open>The player is inside the cube, two units from the face \<open>x = 50\<close> one frame ago.\<close>

definition insideGame :: game where
  "insideGame =
     (placeObject 12 None (Vec3 49 0 0) exampleGame)
       \<lparr>playerSnake := Some (exampleSnake True 12 [] [Vec3 49 0 0, Vec3 47 0 0])\<rparr>"

text \<open>
  A shadow snake whose head is at the edge of the safe band, heading for the face
  \<open>x = 50\<close>, and the head object two units further on.
\<close>

definition wallGame :: game where
  "wallGame =
     (placeObject 20 None (Vec3 45 0 0) exampleGame)
       \<lparr>shadowSnakes := [exampleSnake False 20 [] [Vec3 45 0 0, Vec3 43 0 0]]\<rparr>"

definition headAt47 :: object3d where
  "headAt47 = \<lparr>position = Vec3 47 0 0, rotation = Vec3 1 0 0, parent = True, material = None\<rparr>"

section \<open>Properties of the dissolution: auxiliary notions\<close>

text \<open>
  The loop of \<open>_dissolveSnake\<close> that creates a nibble at each of the first \<open>k\<close>
  segments.
\<close>

definition dropN :: "oid list \<Rightarrow> bool \<Rightarrow> nat \<Rightarrow> game \<Rightarrow> game" where
  "dropN segs rz k G = fold (\<lambda>i G. createAt (positionOf G (segs ! i)) rz G) [0 ..< k] G"

text \<open>
  A player snake of eight segments that has eaten three nibbles, and a shadow snake of
  five segments, in a game whose objects 12 to 26 are theirs.
\<close>

definition dissolveGame :: game where
  "dissolveGame = exampleGame\<lparr>nextId := 27\<rparr>"

definition eightSegmentPlayer :: snake where
  "eightSegmentPlayer = (exampleSnake True 12 [13, 14, 15, 16, 17, 18, 19, 20] [])\<lparr>nibblesEaten := 3\<rparr>"

definition fiveSegmentShadow :: snake where
  "fiveSegmentShadow = exampleSnake False 21 [22, 23, 24, 25, 26] []"

text \<open>The crossing of \<open>crossingGame\<close>, five seconds after the game was reset.\<close>

definition lateCrossingGame :: game where
  "lateCrossingGame = crossingGame\<lparr>clock := (\<lambda>i. 5000)\<rparr>"

text \<open>
  What a collision check or a dissolution would change, read off a state: whether the
  game is over, the counter of collision checks, the invulnerability flag, the shadow
  snakes by identity, and whether there is a player snake.
\<close>

definition vitals :: "game \<Rightarrow> bool \<times> nat \<times> bool \<times> oid list \<times> bool" where
  "vitals G =
     (isGameOver G, collisionChecks G, isShadowSnakeInvulnerable G,
      map head (shadowSnakes G), playerSnake G = None)"

text \<open>
  A player that left the cube two frames ago and a shadow snake, during the
  invulnerability window.
\<close>

definition invulnerableGame :: game where
  "invulnerableGame =
     (placeObject 20 None (Vec3 0 0 0) crossingGame)
       \<lparr>shadowSnakes := [(exampleSnake False 20 [] [Vec3 0 0 0, Vec3 (- 2) 0 0])
                           \<lparr>isInitialReflectionPhase := True\<rparr>],
        isShadowSnakeInvulnerable := True, timers := [(0, 20)]\<rparr>"

text \<open>
  A player snake of eleven segments coiled on itself: the segments follow the head at
  arc length 1.6 along a square of side 4.5, so that the eleventh segment (index 10)
  lies 0.4 from the head. Head and segments are tracked by the grid at their positions;
  there is no shadow snake.
\<close>

definition coiledSegments :: "(oid \<times> vec3) list" where
  "coiledSegments =
     [(13, Vec3 4.6 3 5), (14, Vec3 6.2 3 5), (15, Vec3 7.5 3.3 5), (16, Vec3 7.5 4.9 5),
      (17, Vec3 7.5 6.5 5), (18, Vec3 6.9 7.5 5), (19, Vec3 5.3 7.5 5), (20, Vec3 3.7 7.5 5),
      (21, Vec3 3 6.6 5), (22, Vec3 3 5 5), (23, Vec3 3 3.4 5)]"

definition coiledGame :: game where
  "coiledGame =
     (fold (\<lambda>(ob, p) G. placeObject ob (Some MeshBasicMaterial) p G) coiledSegments
        (placeObject 12 None (Vec3 3 3 5) exampleGame))
       \<lparr>playerSnake := Some ((exampleSnake True 12 (map fst coiledSegments)
                                [Vec3 3 3 5, Vec3 4.6 3 5])\<lparr>nibblesEaten := 6\<rparr>)\<rparr>"

section \<open>Properties of the spatial index over time: auxiliary notions\<close>

text \<open>
  A sequence of insertions and removals applied to a grid, and the position an object
  was last inserted at, if it has not been removed since.
\<close>

datatype gridOp = Insert oid vec3 | Remove oid

fun applyOp :: "gridOp \<Rightarrow> SpatialGrid \<Rightarrow> SpatialGrid" where
  "applyOp (Insert ob p) g = insert_grid g ob p"
| "applyOp (Remove ob) g = remove g ob"

fun track :: "gridOp \<Rightarrow> (oid \<rightharpoonup> vec3) \<Rightarrow> (oid \<rightharpoonup> vec3)" where
  "track (Insert ob p) m = m(ob \<mapsto> p)"
| "track (Remove ob) m = m(ob := None)"

definition lastInserted :: "gridOp list \<Rightarrow> oid \<rightharpoonup> vec3" where
  "lastInserted ops = fold track ops Map.empty"

text \<open>An object is tracked in the cell of the position it has now.\<close>

definition trackedAtPosition :: "game \<Rightarrow> oid \<Rightarrow> bool" where
  "trackedAtPosition G ob =
     (objectMap (spatialGrid G) ob = Some (getGridKey (spatialGrid G) (positionOf G ob)))"

text \<open>
  A shadow snake of five segments whose head is one unit from the boundary between two
  cells of the grid, heading for it.
\<close>

definition staleSegments :: "(oid \<times> vec3) list" where
  "staleSegments =
     [(21, Vec3 7.4 0 0), (22, Vec3 5.8 0 0), (23, Vec3 4.2 0 0), (24, Vec3 2.6 0 0),
      (25, Vec3 1 0 0)]"

definition staleGame :: game where
  "staleGame =
     (fold (\<lambda>(ob, p) G. placeObject ob (Some MeshBasicMaterial) p G) staleSegments
        (placeObject 20 None (Vec3 9 0 0) exampleGame))
       \<lparr>shadowSnakes := [(exampleSnake False 20 (map fst staleSegments)
                            [Vec3 9 0 0, Vec3 7 0 0])\<lparr>isInitialReflectionPhase := True\<rparr>]\<rparr>"

section \<open>The spatial index: proofs\<close>

lemmas constants_defs =
  CUBE_SIZE_def CUBE_HALF_SIZE_def SEGMENT_RADIUS_def SEGMENT_SPACING_def
  COLLISION_DISTANCE_def WALL_BUFFER_def SAFE_WALL_DISTANCE_def SAFE_OBJECT_DISTANCE_def
  SPAWN_INTERVAL_def SHADOW_SPAWN_DELAY_def

lemma set_fold_set_add: "set (fold set_add s acc) = set s \<union> set acc"
  by (induction s arbitrary: acc) (auto simp: set_add_def)

lemma distinct_fold_set_add: "distinct acc \<Longrightarrow> distinct (fold set_add s acc)"
  by (induction s arbitrary: acc) (auto simp: set_add_def)

lemma set_collect_cells:
  "set (fold (\<lambda>key acc. case m key of None \<Rightarrow> acc | Some s \<Rightarrow> fold set_add s acc) keys acc)
     = set acc \<union> (\<Union>k \<in> set keys. case m k of None \<Rightarrow> {} | Some s \<Rightarrow> set s)"
  by (induction keys arbitrary: acc) (auto simp: set_fold_set_add split: option.splits)

lemma distinct_collect_cells:
  "distinct acc \<Longrightarrow>
   distinct (fold (\<lambda>key acc. case m key of None \<Rightarrow> acc | Some s \<Rightarrow> fold set_add s acc) keys acc)"
  by (induction keys arbitrary: acc) (auto simp: distinct_fold_set_add split: option.splits)

lemma set_nearbyKeys:
  "set (nearbyKeys (cx, cy, cz) R) =
     {(x, y, z). cx - R \<le> x \<and> x \<le> cx + R \<and> cy - R \<le> y \<and> y \<le> cy + R \<and> cz - R \<le> z \<and> z \<le> cz + R}"
  unfolding nearbyKeys_def by (simp add: set_eq_iff) fastforce

lemma axisMeets_iff:
  assumes "0 < cs"
  shows "axisMeets cs (real_of_int R * cs) k c \<longleftrightarrow> c - R \<le> k \<and> k \<le> c + R"
proof -
  have a: "real_of_int k * cs \<le> (real_of_int c + 1 / 2) * cs + real_of_int R * cs
           \<longleftrightarrow> real_of_int k \<le> real_of_int c + 1 / 2 + real_of_int R"
  proof -
    have "(real_of_int c + 1 / 2) * cs + real_of_int R * cs = (real_of_int c + 1 / 2 + real_of_int R) * cs"
      by (simp add: algebra_simps)
    then show ?thesis using assms by (simp only: mult_le_cancel_right_pos)
  qed
  have b: "(real_of_int c + 1 / 2) * cs - real_of_int R * cs < (real_of_int k + 1) * cs
           \<longleftrightarrow> real_of_int c + 1 / 2 - real_of_int R < real_of_int k + 1"
  proof -
    have "(real_of_int c + 1 / 2) * cs - real_of_int R * cs = (real_of_int c + 1 / 2 - real_of_int R) * cs"
      by (simp add: algebra_simps)
    then show ?thesis using assms by (simp only: mult_less_cancel_right_pos)
  qed
  have c1: "real_of_int k \<le> real_of_int c + 1 / 2 + real_of_int R \<longleftrightarrow> k \<le> c + R"
    by linarith
  have c2: "real_of_int c + 1 / 2 - real_of_int R < real_of_int k + 1 \<longleftrightarrow> c - R \<le> k"
    by linarith
  show ?thesis
    unfolding axisMeets_def using a b c1 c2 by auto
qed

lemma getNearby_set:
  assumes "gridInv g"
  shows "set (getNearby g p r) =
     {ob. \<exists>kx ky kz. objectMap g ob = Some (kx, ky, kz) \<and>
        (case getGridKey g p of (cx, cy, cz) \<Rightarrow>
           cx - \<lceil>r / cellSize g\<rceil> \<le> kx \<and> kx \<le> cx + \<lceil>r / cellSize g\<rceil> \<and>
           cy - \<lceil>r / cellSize g\<rceil> \<le> ky \<and> ky \<le> cy + \<lceil>r / cellSize g\<rceil> \<and>
           cz - \<lceil>r / cellSize g\<rceil> \<le> kz \<and> kz \<le> cz + \<lceil>r / cellSize g\<rceil>)}"
proof -
  obtain cx cy cz where c: "getGridKey g p = (cx, cy, cz)" by (cases "getGridKey g p") auto
  have inv: "\<And>ob k. objectMap g ob = Some k \<longleftrightarrow> (\<exists>s. grid g k = Some s \<and> ob \<in> set s)"
    using assms unfolding gridInv_def by blast
  show ?thesis
    unfolding getNearby_def Let_def c set_collect_cells set_nearbyKeys
    by (auto simp: inv split: option.splits) blast
qed

lemma getNearby_distinct: "distinct (getNearby g p r)"
  unfolding getNearby_def Let_def by (rule distinct_collect_cells) simp

lemma floor_diff_le_ceiling:
  fixes a b d :: real
  assumes "\<bar>a - b\<bar> \<le> d"
  shows "\<lfloor>a\<rfloor> - \<lceil>d\<rceil> \<le> \<lfloor>b\<rfloor> \<and> \<lfloor>b\<rfloor> \<le> \<lfloor>a\<rfloor> + \<lceil>d\<rceil>"
  using assms by linarith


lemma gridInv_new: "gridInv (newSpatialGrid cs)"
  by (simp add: gridInv_def newSpatialGrid_def)

lemma gridInv_cell: "gridInv g \<Longrightarrow> grid g k = Some s \<Longrightarrow> s \<noteq> [] \<and> distinct s"
  unfolding gridInv_def by blast

lemma gridInv_member:
  "gridInv g \<Longrightarrow> (objectMap g ob = Some k) = (\<exists>s. grid g k = Some s \<and> ob \<in> set s)"
  unfolding gridInv_def by blast

lemma cellSize_remove [simp]: "cellSize (remove g ob) = cellSize g"
  by (simp add: remove_def Let_def split: option.splits)

lemma objectMap_remove [simp]: "objectMap (remove g ob) = (objectMap g)(ob := None)"
  by (simp add: remove_def Let_def split: option.splits)

lemma grid_remove_untracked: "objectMap g ob = None \<Longrightarrow> grid (remove g ob) = grid g"
  by (simp add: remove_def)

lemma grid_remove_tracked:
  assumes "gridInv g" and "objectMap g ob = Some key"
  shows "grid (remove g ob) =
           (grid g)(key := (let s' = removeAll ob (the (grid g key)) in if s' = [] then None else Some s'))"
proof -
  obtain s where s: "grid g key = Some s" using assms gridInv_member by blast
  show ?thesis using assms(2) s by (simp add: remove_def Let_def set_delete_def)
qed

lemma gridInv_remove:
  assumes "gridInv g"
  shows "gridInv (remove g ob)"
proof (cases "objectMap g ob")
  case None
  have og: "(objectMap g)(ob := None) = objectMap g" using None by auto
  show ?thesis
    using assms unfolding gridInv_def by (simp add: grid_remove_untracked [OF None] og)
next
  case (Some key)
  obtain s where s: "grid g key = Some s" and mem: "ob \<in> set s"
    using assms Some gridInv_member by blast
  have only: "\<And>k t. grid g k = Some t \<Longrightarrow> ob \<in> set t \<Longrightarrow> k = key"
    using assms Some gridInv_member by (metis option.inject)
  have g': "grid (remove g ob) = (grid g)(key := (if removeAll ob s = [] then None else Some (removeAll ob s)))"
    using grid_remove_tracked [OF assms Some] s by (simp add: Let_def)
  have emp: "removeAll ob s = [] \<Longrightarrow> set s \<subseteq> {ob}"
    by (metis Diff_eq_empty_iff empty_set set_removeAll)
  have cells: "\<And>k t. grid (remove g ob) k = Some t \<Longrightarrow> t \<noteq> [] \<and> distinct t"
    using gridInv_cell [OF assms] s unfolding g'
    by (auto split: if_splits simp: distinct_removeAll)
  have members: "\<And>x k. ((objectMap g)(ob := None)) x = Some k
                    \<longleftrightarrow> (\<exists>t. grid (remove g ob) k = Some t \<and> x \<in> set t)"
  proof -
    fix x k
    show "((objectMap g)(ob := None)) x = Some k
            \<longleftrightarrow> (\<exists>t. grid (remove g ob) k = Some t \<and> x \<in> set t)"
    proof (cases "x = ob")
      case True
      have "\<not> (\<exists>t. grid (remove g ob) k = Some t \<and> ob \<in> set t)"
        unfolding g' using s by (auto split: if_splits dest: only)
      then show ?thesis using True by simp
    next
      case False
      have "(\<exists>t. grid (remove g ob) k = Some t \<and> x \<in> set t)
              \<longleftrightarrow> (\<exists>t. grid g k = Some t \<and> x \<in> set t)"
        unfolding g' using s False emp by (auto split: if_splits)
      then show ?thesis using False gridInv_member [OF assms] by simp
    qed
  qed
  show ?thesis
    unfolding gridInv_def objectMap_remove using cells members by blast
qed

lemma remove_untracked: "objectMap (remove g ob) ob = None"
  by simp

lemma gridInv_insert:
  assumes "gridInv g"
  shows "gridInv (insert_grid g ob p)"
proof -
  let ?g1 = "remove g ob"
  let ?key = "getGridKey g p"
  let ?s = "case grid ?g1 ?key of None \<Rightarrow> [] | Some s \<Rightarrow> s"
  have inv1: "gridInv ?g1" by (rule gridInv_remove [OF assms])
  have notin: "\<And>k t. grid ?g1 k = Some t \<Longrightarrow> ob \<notin> set t"
    using gridInv_member [OF inv1] remove_untracked by (metis option.distinct(1))
  have sa: "set_add ob ?s = ?s @ [ob]"
    using notin by (auto simp: set_add_def split: option.splits)
  have ds: "distinct ?s" using gridInv_cell [OF inv1] by (auto split: option.splits)
  have obs: "ob \<notin> set ?s" using notin by (auto split: option.splits)
  have G: "grid (insert_grid g ob p) = (grid ?g1)(?key \<mapsto> ?s @ [ob])"
    and O: "objectMap (insert_grid g ob p) = (objectMap ?g1)(ob \<mapsto> ?key)"
    using sa by (simp_all add: insert_grid_def Let_def)
  have cells: "\<And>k t. grid (insert_grid g ob p) k = Some t \<Longrightarrow> t \<noteq> [] \<and> distinct t"
    unfolding G using gridInv_cell [OF inv1] ds obs by (auto split: if_splits)
  have members: "\<And>x k. objectMap (insert_grid g ob p) x = Some k
                    \<longleftrightarrow> (\<exists>t. grid (insert_grid g ob p) k = Some t \<and> x \<in> set t)"
  proof -
    fix x k
    show "objectMap (insert_grid g ob p) x = Some k
            \<longleftrightarrow> (\<exists>t. grid (insert_grid g ob p) k = Some t \<and> x \<in> set t)"
    proof (cases "x = ob")
      case True
      then show ?thesis unfolding G O using notin by (auto split: if_splits)
    next
      case False
      have "(\<exists>t. grid (insert_grid g ob p) k = Some t \<and> x \<in> set t)
              \<longleftrightarrow> (\<exists>t. grid ?g1 k = Some t \<and> x \<in> set t)"
        unfolding G using False by (cases "grid (remove g ob) (getGridKey g p)") auto
      then show ?thesis unfolding O using False gridInv_member [OF inv1, of x k] by simp
    qed
  qed
  show ?thesis unfolding gridInv_def using cells members by blast
qed

lemma objectMap_insert_grid [simp]:
  "objectMap (insert_grid g ob p) = (objectMap g)(ob \<mapsto> getGridKey g p)"
  by (simp add: insert_grid_def Let_def fun_eq_iff)

lemma cellSize_insert_grid [simp]: "cellSize (insert_grid g ob p) = cellSize g"
  by (simp add: insert_grid_def Let_def)

lemma getGridKey_cong: "cellSize g = cellSize g' \<Longrightarrow> getGridKey g p = getGridKey g' p"
  by (simp add: getGridKey_def)

lemma within_radius_key:
  assumes cs: "0 < cellSize g" and d: "distanceTo p q \<le> r"
      and kp: "getGridKey g p = (cx, cy, cz)" and kq: "getGridKey g q = (kx, ky, kz)"
  shows "cx - \<lceil>r / cellSize g\<rceil> \<le> kx \<and> kx \<le> cx + \<lceil>r / cellSize g\<rceil> \<and>
         cy - \<lceil>r / cellSize g\<rceil> \<le> ky \<and> ky \<le> cy + \<lceil>r / cellSize g\<rceil> \<and>
         cz - \<lceil>r / cellSize g\<rceil> \<le> kz \<and> kz \<le> cz + \<lceil>r / cellSize g\<rceil>"
proof -
  let ?c = "cellSize g"
  have axis: "\<bar>a - b\<bar> \<le> r" if "(a - b)\<^sup>2 \<le> distanceSquared p q" for a b
  proof -
    have "\<bar>a - b\<bar> = sqrt ((a - b)\<^sup>2)" by simp
    also have "\<dots> \<le> sqrt (distanceSquared p q)" using that by (simp only: real_sqrt_le_iff)
    also have "\<dots> \<le> r" using d by (simp add: distanceTo_def)
    finally show ?thesis .
  qed
  have sq: "distanceSquared p q = (vx p - vx q)\<^sup>2 + (vy p - vy q)\<^sup>2 + (vz p - vz q)\<^sup>2"
    by (simp add: distanceSquared_def Let_def power2_eq_square)
  have x: "\<bar>vx p - vx q\<bar> \<le> r" by (rule axis) (simp add: sq)
  have y: "\<bar>vy p - vy q\<bar> \<le> r" by (rule axis) (simp add: sq)
  have z: "\<bar>vz p - vz q\<bar> \<le> r" by (rule axis) (simp add: sq)
  have scale: "\<bar>a / ?c - b / ?c\<bar> \<le> r / ?c" if "\<bar>a - b\<bar> \<le> r" for a b
  proof -
    have "a / ?c - b / ?c = (a - b) / ?c" by (simp add: diff_divide_distrib)
    then have "\<bar>a / ?c - b / ?c\<bar> = \<bar>a - b\<bar> / ?c"
      using cs by simp
    also have "\<dots> \<le> r / ?c" using that cs by (simp add: divide_right_mono)
    finally show ?thesis .
  qed
  have kx: "kx = \<lfloor>vx q / ?c\<rfloor>" "ky = \<lfloor>vy q / ?c\<rfloor>" "kz = \<lfloor>vz q / ?c\<rfloor>"
    and cx: "cx = \<lfloor>vx p / ?c\<rfloor>" "cy = \<lfloor>vy p / ?c\<rfloor>" "cz = \<lfloor>vz p / ?c\<rfloor>"
    using kp kq by (simp_all add: getGridKey_def)
  show ?thesis
    unfolding kx cx
    using floor_diff_le_ceiling [OF scale [OF x]] floor_diff_le_ceiling [OF scale [OF y]]
          floor_diff_le_ceiling [OF scale [OF z]]
    by simp
qed


lemma sqrt_49: "sqrt 49 = 7"
proof -
  have "sqrt 49 = sqrt (7\<^sup>2)" by simp
  then show ?thesis by simp
qed


section \<open>What the operations leave unchanged\<close>

lemmas prim_defs =
  setPosition_def setRotation_def sceneAdd_def sceneRemove_def newObject_def random_def
  now_def updateObject_def removeObject_def create_def

lemma control_prims [simp]:
  "control (setPosition ob p G) = control G"
  "control (setRotation ob r G) = control G"
  "control (sceneAdd ob G) = control G"
  "control (sceneRemove ob G) = control G"
  "control (updateObject G ob p) = control G"
  "control (removeObject G ob) = control G"
  by (simp_all add: prim_defs control_def)

lemma control_pairs:
  "newObject m G = (x, G') \<Longrightarrow> control G' = control G"
  "random G = (r, G') \<Longrightarrow> control G' = control G"
  "now G = (t, G') \<Longrightarrow> control G' = control G"
  "create G = (x, G') \<Longrightarrow> control G' = control G"
  by (auto simp: prim_defs control_def)

lemma control_field_updates [simp]:
  "control (G\<lparr>nibbles := ns\<rparr>) = control G"
  "control (G\<lparr>randoms := rs\<rparr>) = control G"
  "control (G\<lparr>clock := cl\<rparr>) = control G"
  "control (G\<lparr>objects := ob\<rparr>) = control G"
  "control (G\<lparr>spatialGrid := sg\<rparr>) = control G"
  "control (G\<lparr>nextId := n\<rparr>) = control G"
  by (simp_all add: control_def)

lemma control_createAt [simp]: "control (createAt pos rz G) = control G"
  by (auto simp: createAt_def Let_def split: prod.splits dest!: control_pairs)


lemma control_removeByIndex [simp]: "control (removeByIndex i G) = control G"
  by (simp add: removeByIndex_def Let_def)

lemma control_spawn: "spawn G = Some G' \<Longrightarrow> control G' = control G"
  by (auto simp: spawn_def Let_def split: prod.splits option.splits dest!: control_pairs)

lemma control_addSegment: "addSegment i s G = (s', G') \<Longrightarrow> control G' = control G"
  by (auto simp: addSegment_def Let_def split: prod.splits dest!: control_pairs)

lemma snake_addSegment:
  "addSegment i s G = (s', G') \<Longrightarrow>
     head s' = head s \<and> isPlayer s' = isPlayer s \<and> nibblesEaten s' = nibblesEaten s \<and>
     trail s' = trail s \<and> direction s' = direction s \<and>
     isInitialReflectionPhase s' = isInitialReflectionPhase s \<and>
     length (segments s') = Suc (length (segments s))"
  by (cases i) (auto simp: addSegment_def Let_def split: prod.splits)

lemma control_seekNibbles: "seekNibbles s G = (s', G') \<Longrightarrow> control G' = control G"
  by (auto simp: seekNibbles_def Let_def split: prod.splits option.splits if_splits
           dest!: control_pairs)

lemma snake_seekNibbles:
  "seekNibbles s G = (s', G') \<Longrightarrow>
     head s' = head s \<and> isPlayer s' = isPlayer s \<and> segments s' = segments s \<and>
     trail s' = trail s \<and> nibblesEaten s' = nibblesEaten s \<and> colorOffset s' = colorOffset s \<and>
     isInitialReflectionPhase s' = isInitialReflectionPhase s \<and> direction s' = direction s"
  by (auto simp: seekNibbles_def Let_def split: prod.splits option.splits if_splits)

lemma control_avoidWalls [simp]: "control (avoidWalls s G) = control G"
  by (simp add: avoidWalls_def)

lemma control_aiStep: "aiStep s G = (s', G') \<Longrightarrow> control G' = control G"
  by (auto simp: aiStep_def split: prod.splits if_splits dest!: control_seekNibbles)

lemma snake_aiStep:
  "aiStep s G = (s', G') \<Longrightarrow>
     head s' = head s \<and> isPlayer s' = isPlayer s \<and> segments s' = segments s \<and>
     trail s' = trail s \<and> nibblesEaten s' = nibblesEaten s \<and> colorOffset s' = colorOffset s \<and>
     isInitialReflectionPhase s' = isInitialReflectionPhase s \<and> direction s' = direction s"
  by (auto simp: aiStep_def split: prod.splits if_splits dest!: snake_seekNibbles)

lemma control_updateSegment [simp]: "control (updateSegment T s time i G) = control G"
  by (simp add: updateSegment_def Let_def)

lemma control_fold_updateSegment [simp]:
  "control (fold (updateSegment T s time) is G) = control G"
  by (induction "is" arbitrary: G) simp_all

lemma control_update: "update T delta s G = (s', G') \<Longrightarrow> control G' = control G"
  by (auto simp: update_def Let_def split: prod.splits
           dest!: control_aiStep control_pairs)

lemma snake_update:
  "update T delta s G = (s', G') \<Longrightarrow>
     head s' = head s \<and> isPlayer s' = isPlayer s \<and> segments s' = segments s \<and>
     nibblesEaten s' = nibblesEaten s \<and>
     isInitialReflectionPhase s' = isInitialReflectionPhase s"
  by (auto simp: update_def Let_def split: prod.splits dest!: snake_aiStep)

lemma objects_updateObject [simp]: "objects (updateObject G ob p) = objects G"
  by (simp add: updateObject_def)

lemma objects_removeObject [simp]: "objects (removeObject G ob) = objects G"
  by (simp add: removeObject_def)

lemma objects_updateSegment:
  "ob \<noteq> segments s ! i \<Longrightarrow> objects (updateSegment T s time i G) ob = objects G ob"
  by (simp add: updateSegment_def Let_def setPosition_def)

lemma objects_fold_updateSegment:
  "\<forall>i \<in> set is. ob \<noteq> segments s ! i \<Longrightarrow>
   objects (fold (updateSegment T s time) is G) ob = objects G ob"
  by (induction "is" arbitrary: G) (simp_all add: objects_updateSegment)

lemma objects_fold_updateSegment_head:
  assumes "h \<notin> set (segments s)"
  shows "objects (fold (updateSegment T s time) [0 ..< length (segments s)] G) h = objects G h"
  by (rule objects_fold_updateSegment) (use assms in \<open>auto simp: in_set_conv_nth\<close>)

lemma update_unfold:
  assumes "update T delta s G = (s', G')"
  obtains s2 G2 t G3 G4 G5 where
    "aiStep (s\<lparr>direction := getWorldDirection T (rotationOf G (head s))\<rparr>)
       (setPosition (head s)
          (add (positionOf G (head s))
               (multiplyScalar (getWorldDirection T (rotationOf G (head s))) (speed s * delta * 60))) G)
       = (s2, G2)"
    and "now G2 = (t, G3)"
    and "G4 = setPosition (head s2)
                (Vec3 (vx (positionOf G3 (head s2)))
                      (vy (positionOf G3 (head s2)) + sin (t * 0.001 * 5 + colorOffset s2) * 0.5 * 0.1)
                      (vz (positionOf G3 (head s2)))) G3"
    and "s' = s2\<lparr>trail := pushTrail (settings_trailLength (gameSettings G4))
                               (positionOf G4 (head s2)) (trail s2)\<rparr>"
    and "G5 = fold (updateSegment T s' (t * 0.001)) [0 ..< length (segments s')] G4"
    and "G' = (if isPlayer s' then updateObject G5 (head s') (positionOf G5 (head s')) else G5)"
proof -
  let ?s1 = "s\<lparr>direction := getWorldDirection T (rotationOf G (head s))\<rparr>"
  let ?G1 = "setPosition (head s)
          (add (positionOf G (head s))
               (multiplyScalar (getWorldDirection T (rotationOf G (head s))) (speed s * delta * 60))) G"
  obtain s2 G2 where ai: "aiStep ?s1 ?G1 = (s2, G2)" by (cases "aiStep ?s1 ?G1") auto
  obtain t G3 where nw: "now G2 = (t, G3)" by (cases "now G2") auto
  define G4 where "G4 = setPosition (head s2)
                (Vec3 (vx (positionOf G3 (head s2)))
                      (vy (positionOf G3 (head s2)) + sin (t * 0.001 * 5 + colorOffset s2) * 0.5 * 0.1)
                      (vz (positionOf G3 (head s2)))) G3"
  define s3 where "s3 = s2\<lparr>trail := pushTrail (settings_trailLength (gameSettings G4))
                               (positionOf G4 (head s2)) (trail s2)\<rparr>"
  define G5 where "G5 = fold (updateSegment T s3 (t * 0.001)) [0 ..< length (segments s3)] G4"
  have "update T delta s G
          = (s3, if isPlayer s3 then updateObject G5 (head s3) (positionOf G5 (head s3)) else G5)"
    unfolding update_def Let_def by (simp add: ai nw G4_def s3_def G5_def)
  then have "s' = s3"
    and "G' = (if isPlayer s3 then updateObject G5 (head s3) (positionOf G5 (head s3)) else G5)"
    using assms by simp_all
  then show ?thesis using that [OF ai nw G4_def] s3_def G5_def by blast
qed

lemma gameSettings_control: "control G' = control G \<Longrightarrow> gameSettings G' = gameSettings G"
  by (simp add: control_def)

lemma update_trail:
  assumes u: "update T delta s G = (s', G')" and h: "head s \<notin> set (segments s)"
  shows "trail s' = pushTrail (settings_trailLength (gameSettings G))
                      (positionOf G' (head s')) (trail s)"
proof -
  from u obtain s2 G2 t G3 G4 G5 where
    ai: "aiStep (s\<lparr>direction := getWorldDirection T (rotationOf G (head s))\<rparr>)
       (setPosition (head s)
          (add (positionOf G (head s))
               (multiplyScalar (getWorldDirection T (rotationOf G (head s))) (speed s * delta * 60))) G)
       = (s2, G2)"
    and nw: "now G2 = (t, G3)"
    and G4: "G4 = setPosition (head s2)
                (Vec3 (vx (positionOf G3 (head s2)))
                      (vy (positionOf G3 (head s2)) + sin (t * 0.001 * 5 + colorOffset s2) * 0.5 * 0.1)
                      (vz (positionOf G3 (head s2)))) G3"
    and s': "s' = s2\<lparr>trail := pushTrail (settings_trailLength (gameSettings G4))
                               (positionOf G4 (head s2)) (trail s2)\<rparr>"
    and G5: "G5 = fold (updateSegment T s' (t * 0.001)) [0 ..< length (segments s')] G4"
    and G': "G' = (if isPlayer s' then updateObject G5 (head s') (positionOf G5 (head s')) else G5)"
    by (rule update_unfold)
  have s2: "head s2 = head s" "segments s2 = segments s" "trail s2 = trail s"
    using snake_aiStep [OF ai] by simp_all
  have hs': "head s' = head s" "segments s' = segments s" using s' s2 by simp_all
  have c2: "control G2 = control G" using control_aiStep [OF ai] by simp
  have c3: "control G3 = control G2" using control_pairs(3) [OF nw] .
  have c4: "control G4 = control G" using c2 c3 by (simp add: G4)
  have set4: "gameSettings G4 = gameSettings G" by (rule gameSettings_control [OF c4])
  have "objects G5 (head s) = objects G4 (head s)"
    unfolding G5 by (rule objects_fold_updateSegment_head) (simp add: hs' h)
  then have "positionOf G' (head s') = positionOf G4 (head s2)"
    by (simp add: G' positionOf_def hs' s2)
  then show ?thesis by (simp add: s' set4 s2)
qed

section \<open>The boundary monitor: proofs\<close>

lemma wallCrossing_refines:
  assumes "isInsideCube prevPos" and "\<not> isInsideCube pos"
  shows "wallCrossing prevPos pos = specCrossing prevPos pos"
  using assms
  by (auto simp: wallCrossing_def specCrossing_def specCrossedAxis_def isInsideCube_def Let_def)

lemma specCrossedAxis_fires:
  assumes "isInsideCube prevPos" and "\<not> isInsideCube pos"
  shows "\<exists>a. specCrossedAxis prevPos pos = Some a"
  using assms by (auto simp: specCrossedAxis_def isInsideCube_def)

lemma wallCrossing_example:
  "wallCrossing (Vec3 49 0 0) (Vec3 51 0 0) = Some (Vec3 50 0 0, Vec3 (- 1) 0 0)"
  by (simp add: wallCrossing_def isInsideCube_def constants_defs)

lemma wallCrossing_edge:
  "wallCrossing prevPos pos \<noteq> None \<longleftrightarrow> isInsideCube prevPos \<and> \<not> isInsideCube pos"
  by (auto simp: wallCrossing_def isInsideCube_def Let_def)

lemma pushTrail_props:
  assumes "tr \<noteq> []" and "2 \<le> cap \<or> 2 \<le> length tr"
  shows "pushTrail cap p tr \<noteq> []" "hd (pushTrail cap p tr) = p"
        "2 \<le> length (pushTrail cap p tr)" "pushTrail cap p tr ! 1 = hd tr"
proof -
  obtain a as where tr: "tr = a # as" using assms(1) by (cases tr) auto
  show "pushTrail cap p tr \<noteq> []" using tr by (auto simp: pushTrail_def Let_def)
  show "hd (pushTrail cap p tr) = p" using tr by (auto simp: pushTrail_def Let_def)
  show "2 \<le> length (pushTrail cap p tr)" using tr assms(2) by (auto simp: pushTrail_def Let_def)
  show "pushTrail cap p tr ! 1 = hd tr"
    using tr assms(2) by (cases as) (auto simp: pushTrail_def Let_def nth_butlast)
qed

lemma previousPosition_pushTrail:
  assumes "tr \<noteq> []" and "2 \<le> cap \<or> 2 \<le> length tr"
  shows "previousPosition (pushTrail cap p tr) dir p = hd tr"
  using pushTrail_props [OF assms, of p] by (simp add: previousPosition_def)

lemma crossingEvents_outside:
  assumes "tr \<noteq> []" and "2 \<le> cap \<or> 2 \<le> length tr"
      and "\<not> isInsideCube (hd tr)" and "\<forall>p \<in> set ps. \<not> isInsideCube p"
  shows "crossingEvents cap dir tr ps = replicate (length ps) None"
  using assms
proof (induction ps arbitrary: tr)
  case Nil
  then show ?case by simp
next
  case (Cons p ps)
  have pp: "previousPosition (pushTrail cap p tr) dir p = hd tr"
    by (rule previousPosition_pushTrail) (use Cons.prems in auto)
  have none: "wallCrossing (hd tr) p = None"
    using Cons.prems(3) wallCrossing_edge [of "hd tr" p] by blast
  have rest: "crossingEvents cap dir (pushTrail cap p tr) ps = replicate (length ps) None"
  proof (rule Cons.IH)
    show "pushTrail cap p tr \<noteq> []" "2 \<le> cap \<or> 2 \<le> length (pushTrail cap p tr)"
      using pushTrail_props [of tr cap p] Cons.prems by auto
    show "\<not> isInsideCube (hd (pushTrail cap p tr))"
      using pushTrail_props(2) [of tr cap p] Cons.prems by auto
    show "\<forall>p \<in> set ps. \<not> isInsideCube p" using Cons.prems by auto
  qed
  show ?case by (simp add: Let_def pp none rest)
qed

lemma checkCubeBoundary_crossing:
  assumes "playerSnake G = Some ps" and "isPlayer ps"
      and "wallCrossing (previousPosition (trail ps) (direction ps) (positionOf G (head ps)))
             (positionOf G (head ps)) = Some (w, n)"
  shows "checkCubeBoundary T G = spawnShadowSnake T w n G"
  using assms by (simp add: checkCubeBoundary_def Let_def)

text \<open>
  Claim C6. When the previous position is inside the cube and the current one is
  outside, the boundary check hands \<open>_spawnShadowSnake\<close> the hit point and the normal of
  the first axis, in the order \<open>x\<close>, \<open>y\<close>, \<open>z\<close>, on which the previous coordinate is
  within the half-extent and the current one beyond it: the hit point is the current
  position with that coordinate put on the face, the normal is minus the sign of that
  coordinate on that axis and zero elsewhere; such an axis always exists. From
  \<open>(49, 0, 0)\<close> to \<open>(51, 0, 0)\<close> the hit point is \<open>(50, 0, 0)\<close> and the normal
  \<open>(-1, 0, 0)\<close>.
\<close>

theorem boundary_axis_priority:
  assumes "isInsideCube prevPos" and "\<not> isInsideCube pos"
  shows "wallCrossing prevPos pos = specCrossing prevPos pos \<and>
         (\<exists>a. specCrossedAxis prevPos pos = Some a) \<and>
         (\<forall>T G ps. playerSnake G = Some ps \<and> isPlayer ps \<and>
                    positionOf G (head ps) = pos \<and>
                    previousPosition (trail ps) (direction ps) pos = prevPos
            \<longrightarrow> (\<exists>w n. specCrossing prevPos pos = Some (w, n) \<and>
                       checkCubeBoundary T G = spawnShadowSnake T w n G)) \<and>
         wallCrossing (Vec3 49 0 0) (Vec3 51 0 0) = Some (Vec3 50 0 0, Vec3 (- 1) 0 0)"
proof -
  have r: "wallCrossing prevPos pos = specCrossing prevPos pos"
    by (rule wallCrossing_refines [OF assms])
  obtain a where a: "specCrossedAxis prevPos pos = Some a"
    using specCrossedAxis_fires [OF assms] by blast
  then obtain w n where wn: "specCrossing prevPos pos = Some (w, n)"
    by (simp add: specCrossing_def)
  have g: "checkCubeBoundary T G = spawnShadowSnake T w n G"
    if "playerSnake G = Some ps" "isPlayer ps" "positionOf G (head ps) = pos"
       "previousPosition (trail ps) (direction ps) pos = prevPos" for T G ps
    by (rule checkCubeBoundary_crossing [OF that(1,2)]) (simp add: that r wn)
  show ?thesis using r a wn g wallCrossing_example by blast
qed

theorem boundary_axis_priority_witness:
  "isInsideCube (Vec3 49 0 0) \<and> \<not> isInsideCube (Vec3 51 0 0) \<and>
   playerSnake crossingGame = Some (exampleSnake True 12 [] [Vec3 51 0 0, Vec3 49 0 0]) \<and>
   isPlayer (exampleSnake True 12 [] [Vec3 51 0 0, Vec3 49 0 0]) \<and>
   positionOf crossingGame 12 = Vec3 51 0 0 \<and>
   previousPosition [Vec3 51 0 0, Vec3 49 0 0] (Vec3 1 0 0) (Vec3 51 0 0) = Vec3 49 0 0 \<and>
   specCrossedAxis (Vec3 49 0 0) (Vec3 51 0 0) = Some AxisX \<and>
   checkCubeBoundary exampleThree crossingGame
     = spawnShadowSnake exampleThree (Vec3 50 0 0) (Vec3 (- 1) 0 0) crossingGame"
proof -
  let ?ps = "exampleSnake True 12 [] [Vec3 51 0 0, Vec3 49 0 0]"
  have i: "isInsideCube (Vec3 49 0 0)" and o: "\<not> isInsideCube (Vec3 51 0 0)"
    by (simp_all add: isInsideCube_def constants_defs)
  have p: "playerSnake crossingGame = Some ?ps"
    by (simp add: crossingGame_def)
  have ip: "isPlayer ?ps" and hd: "head ?ps = 12" and tr: "trail ?ps = [Vec3 51 0 0, Vec3 49 0 0]"
    and dr: "direction ?ps = Vec3 1 0 0"
    by (simp_all add: exampleSnake_def)
  have pos: "positionOf crossingGame 12 = Vec3 51 0 0"
    by (simp add: crossingGame_def placeObject_def positionOf_def Let_def)
  have prev: "previousPosition [Vec3 51 0 0, Vec3 49 0 0] (Vec3 1 0 0) (Vec3 51 0 0) = Vec3 49 0 0"
    by (simp add: previousPosition_def)
  have ax: "specCrossedAxis (Vec3 49 0 0) (Vec3 51 0 0) = Some AxisX"
    by (simp add: specCrossedAxis_def constants_defs)
  have sc: "specCrossing (Vec3 49 0 0) (Vec3 51 0 0) = Some (Vec3 50 0 0, Vec3 (- 1) 0 0)"
    by (simp add: specCrossing_def ax constants_defs)
  from boundary_axis_priority [OF i o]
  have "\<exists>w n. specCrossing (Vec3 49 0 0) (Vec3 51 0 0) = Some (w, n) \<and>
               checkCubeBoundary exampleThree crossingGame
                 = spawnShadowSnake exampleThree w n crossingGame"
    using p ip pos prev hd tr dr by (metis (no_types, lifting))
  then have "checkCubeBoundary exampleThree crossingGame
               = spawnShadowSnake exampleThree (Vec3 50 0 0) (Vec3 (- 1) 0 0) crossingGame"
    using sc by auto
  then show ?thesis using i o p ip pos prev ax by blast
qed



section \<open>The nibble spawn search: proofs\<close>

lemma spawnSearch_near_wall_step:
  assumes "\<bar>(rnd 0 - 0.5) * CUBE_SIZE\<bar> > CUBE_HALF_SIZE - SAFE_WALL_DISTANCE"
  shows "spawnSearch G rnd tries False = spawnSearch G (\<lambda>i. rnd (i + 3)) (tries + 1) False"
  using assms by (simp add: spawnSearch.simps [of G rnd tries False] Let_def)

lemma spawnSearch_never_returns:
  assumes "spawnSearch G rnd tries isSafe = Some y"
  shows "\<not> ((\<forall>i. \<bar>(rnd i - 0.5) * CUBE_SIZE\<bar> > CUBE_HALF_SIZE - SAFE_WALL_DISTANCE) \<and> \<not> isSafe)"
proof (rule spawnSearch.raw_induct
    [where P = "\<lambda>G rnd tries isSafe y.
        \<not> ((\<forall>i. \<bar>(rnd i - 0.5) * CUBE_SIZE\<bar> > CUBE_HALF_SIZE - SAFE_WALL_DISTANCE) \<and> \<not> isSafe)",
     OF _ assms])
  fix f :: "game \<Rightarrow> (nat \<Rightarrow> real) \<Rightarrow> nat \<Rightarrow> bool \<Rightarrow> (vec3 \<times> (nat \<Rightarrow> real) \<times> nat) option"
    and G rnd tries isSafe y
  assume IH: "\<And>G rnd tries isSafe y. f G rnd tries isSafe = Some y \<Longrightarrow>
        \<not> ((\<forall>i. \<bar>(rnd i - 0.5) * CUBE_SIZE\<bar> > CUBE_HALF_SIZE - SAFE_WALL_DISTANCE) \<and> \<not> isSafe)"
  assume body: "(let maxTries = 100;
          x = (rnd 0 - 0.5) * CUBE_SIZE;
          y = (rnd 1 - 0.5) * CUBE_SIZE;
          z = (rnd 2 - 0.5) * CUBE_SIZE;
          pos = Vec3 x y z;
          rnd' = (\<lambda>i. rnd (i + 3));
          isNearWall = (\<bar>x\<bar> > CUBE_HALF_SIZE - SAFE_WALL_DISTANCE \<or>
                        \<bar>y\<bar> > CUBE_HALF_SIZE - SAFE_WALL_DISTANCE \<or>
                        \<bar>z\<bar> > CUBE_HALF_SIZE - SAFE_WALL_DISTANCE)
      in if isNearWall then
           (if \<not> isSafe then f G rnd' (tries + 1) isSafe
            else Some (pos, rnd', tries + 1))
         else
           (let nearbyObjects = getNearby (spatialGrid G) pos (SAFE_OBJECT_DISTANCE * 2);
                isSafe' = (\<not> list_ex (\<lambda>obj.
                             distanceSquared pos (positionOf G obj)
                               < SAFE_OBJECT_DISTANCE * SAFE_OBJECT_DISTANCE) nearbyObjects);
                tries' = tries + 1
            in if tries' > maxTries then Some (pos, rnd', tries')
               else if \<not> isSafe' then f G rnd' tries' isSafe'
               else Some (pos, rnd', tries'))) = Some y"
  show "\<not> ((\<forall>i. \<bar>(rnd i - 0.5) * CUBE_SIZE\<bar> > CUBE_HALF_SIZE - SAFE_WALL_DISTANCE) \<and> \<not> isSafe)"
  proof
    assume a: "(\<forall>i. \<bar>(rnd i - 0.5) * CUBE_SIZE\<bar> > CUBE_HALF_SIZE - SAFE_WALL_DISTANCE) \<and> \<not> isSafe"
    then have "f G (\<lambda>i. rnd (i + 3)) (tries + 1) isSafe = Some y"
      using body by (simp add: Let_def)
    from IH [OF this] show False using a by simp
  qed
qed

lemma spawnSearch_skip:
  assumes "\<forall>i < 3 * n. \<bar>(rnd i - 0.5) * CUBE_SIZE\<bar> > CUBE_HALF_SIZE - SAFE_WALL_DISTANCE"
  shows "spawnSearch G rnd tries False = spawnSearch G (\<lambda>i. rnd (i + 3 * n)) (tries + n) False"
  using assms
proof (induction n arbitrary: rnd tries)
  case 0
  then show ?case by simp
next
  case (Suc n)
  have near: "\<bar>(rnd 0 - 0.5) * CUBE_SIZE\<bar> > CUBE_HALF_SIZE - SAFE_WALL_DISTANCE"
    using Suc.prems by simp
  have rest: "\<forall>i < 3 * n. \<bar>(rnd (i + 3) - 0.5) * CUBE_SIZE\<bar> > CUBE_HALF_SIZE - SAFE_WALL_DISTANCE"
    using Suc.prems by simp
  have "spawnSearch G rnd tries False = spawnSearch G (\<lambda>i. rnd (i + 3)) (tries + 1) False"
    using near by (rule spawnSearch_near_wall_step [where rnd = rnd])
  also have "\<dots> = spawnSearch G (\<lambda>i. rnd (i + 3 * n + 3)) (tries + 1 + n) False"
    using Suc.IH [of "\<lambda>i. rnd (i + 3)" "tries + 1", OF rest] by simp
  finally show ?case by (simp add: add.commute add.left_commute)
qed

lemma getNearby_empty: "grid g = Map.empty \<Longrightarrow> getNearby g p r = []"
proof -
  assume e: "grid g = Map.empty"
  have "fold (\<lambda>key acc. case grid g key of None \<Rightarrow> acc | Some s \<Rightarrow> fold set_add s acc) ks acc = acc"
    for ks acc by (induction ks) (simp_all add: e)
  then show ?thesis by (simp add: getNearby_def Let_def)
qed

text \<open>
  Claim C3. The search of \<open>spawn\<close> is not bounded by its retry limit: a round whose
  sample is near a wall takes the \<open>continue\<close> and never reaches the test
  \<open>tries > maxTries\<close>. When \<open>Math.random()\<close> returns 0.999 at every call each
  sample is \<open>(49.9, 49.9, 49.9)\<close>, and neither the search nor \<open>spawn\<close> returns.
  When the first 150 samples are near a wall and the next is the origin of an empty
  arena, the search returns after 151 rounds.
\<close>

theorem spawn_can_run_forever:
  "spawnSearch G (\<lambda>i. 999 / 1000) 0 False = None \<and>
   spawn (G\<lparr>randoms := (\<lambda>i. 999 / 1000)\<rparr>) = None \<and>
   spawnSearch exampleGame (\<lambda>i. if i < 450 then 999 / 1000 else 1 / 2) 0 False
     = Some (Vec3 0 0 0, (\<lambda>i. 1 / 2), 151)"
proof -
  have near: "\<forall>i. \<bar>((\<lambda>i. 999 / 1000 :: real) i - 0.5) * CUBE_SIZE\<bar> > CUBE_HALF_SIZE - SAFE_WALL_DISTANCE"
    by (simp add: constants_defs)
  have none: "spawnSearch H (\<lambda>i. 999 / 1000) 0 False = None" for H
  proof (cases "spawnSearch H (\<lambda>i. 999 / 1000) 0 False")
    case None
    then show ?thesis .
  next
    case (Some y)
    from spawnSearch_never_returns [OF Some] near show ?thesis by blast
  qed
  have sp: "spawn (G\<lparr>randoms := (\<lambda>i. 999 / 1000)\<rparr>) = None"
    by (simp add: spawn_def create_def newObject_def none split: prod.splits)
  let ?rnd = "\<lambda>i::nat. if i < 450 then 999 / 1000 else (1 / 2 :: real)"
  have pre: "\<forall>i < 3 * 150. \<bar>(?rnd i - 0.5) * CUBE_SIZE\<bar> > CUBE_HALF_SIZE - SAFE_WALL_DISTANCE"
    by (simp add: constants_defs)
  have "spawnSearch exampleGame ?rnd 0 False
          = spawnSearch exampleGame (\<lambda>i. ?rnd (i + 3 * 150)) (0 + 150) False"
    by (rule spawnSearch_skip [OF pre])
  also have "\<dots> = spawnSearch exampleGame (\<lambda>i. 1 / 2) 150 False"
    by simp
  also have "\<dots> = Some (Vec3 0 0 0, (\<lambda>i. 1 / 2), 151)"
    by (subst spawnSearch.simps)
       (simp add: Let_def constants_defs getNearby_empty exampleGame_def newSpatialGrid_def)
  finally show ?thesis using none sp by blast
qed

section \<open>Wall avoidance: proofs\<close>

lemma objects_now: "now G = (t, G') \<Longrightarrow> objects G' = objects G"
  by (auto simp: now_def)

lemma objects_random: "random G = (r, G') \<Longrightarrow> objects G' = objects G"
  by (auto simp: random_def)

lemma position_seekNibbles:
  "seekNibbles s G = (s', G') \<Longrightarrow> position (objects G' ob) = position (objects G ob)"
  by (auto simp: seekNibbles_def Let_def setRotation_def rotationOf_def
           split: prod.splits option.splits if_splits dest!: objects_now objects_random)

lemma steerVector_inward:
  "(vx p > CUBE_HALF_SIZE - WALL_BUFFER \<longrightarrow> vx (steerVector p) = - 1) \<and>
   (vx p < - (CUBE_HALF_SIZE - WALL_BUFFER) \<longrightarrow> vx (steerVector p) = 1) \<and>
   (\<bar>vx p\<bar> \<le> CUBE_HALF_SIZE - WALL_BUFFER \<longrightarrow> vx (steerVector p) = 0) \<and>
   (vy p > CUBE_HALF_SIZE - WALL_BUFFER \<longrightarrow> vy (steerVector p) = - 1) \<and>
   (vy p < - (CUBE_HALF_SIZE - WALL_BUFFER) \<longrightarrow> vy (steerVector p) = 1) \<and>
   (\<bar>vy p\<bar> \<le> CUBE_HALF_SIZE - WALL_BUFFER \<longrightarrow> vy (steerVector p) = 0) \<and>
   (vz p > CUBE_HALF_SIZE - WALL_BUFFER \<longrightarrow> vz (steerVector p) = - 1) \<and>
   (vz p < - (CUBE_HALF_SIZE - WALL_BUFFER) \<longrightarrow> vz (steerVector p) = 1) \<and>
   (\<bar>vz p\<bar> \<le> CUBE_HALF_SIZE - WALL_BUFFER \<longrightarrow> vz (steerVector p) = 0)"
  by (simp add: steerVector_def Let_def constants_defs)

lemma avoidWallsHead_turn:
  assumes "needsTurn (position h)"
  shows "position (avoidWallsHead h) =
           Vec3 (min (max (vx (position h)) (- CUBE_HALF_SIZE + SEGMENT_RADIUS))
                     (CUBE_HALF_SIZE - SEGMENT_RADIUS))
                (min (max (vy (position h)) (- CUBE_HALF_SIZE + SEGMENT_RADIUS))
                     (CUBE_HALF_SIZE - SEGMENT_RADIUS))
                (min (max (vz (position h)) (- CUBE_HALF_SIZE + SEGMENT_RADIUS))
                     (CUBE_HALF_SIZE - SEGMENT_RADIUS))"
    and "vy (rotation (avoidWallsHead h)) =
           vy (rotation h)
           + (atan2 (vx (normalize (steerVector (position h))))
                    (vz (normalize (steerVector (position h)))) - vy (rotation h)) * 0.12"
    and "vx (rotation (avoidWallsHead h)) =
           vx (rotation h)
           + (atan2 (- vy (normalize (steerVector (position h))))
                    (sqrt ((vx (normalize (steerVector (position h))))\<^sup>2
                           + (vz (normalize (steerVector (position h))))\<^sup>2))
              - vx (rotation h)) * 0.06"
    and "vz (rotation (avoidWallsHead h)) = vz (rotation h)"
  using assms by (simp_all add: avoidWallsHead_def Let_def)

lemma avoidWallsHead_still:
  "\<not> needsTurn (position h) \<Longrightarrow> avoidWallsHead h = h"
  by (simp add: avoidWallsHead_def Let_def)

lemma aiStep_position:
  assumes "aiStep s G = (s', G')" and "\<not> isPlayer s"
  shows "position (objects G' (head s)) = position (avoidWallsHead (objects G' (head s)\<lparr>position := position (objects G (head s))\<rparr>))"
    and "position (objects G' (head s)) = position (avoidWallsHead ((objects G (head s))))"
proof -
  obtain s1 G1 where sub: "(if \<not> isInitialReflectionPhase s then seekNibbles s G else (s, G)) = (s1, G1)"
    by (cases "if \<not> isInitialReflectionPhase s then seekNibbles s G else (s, G)") auto
  have G': "G' = avoidWalls s1 G1" and s': "s' = s1"
    using assms sub by (auto simp: aiStep_def)
  have hd: "head s1 = head s"
    using sub snake_seekNibbles [of s G s1 G1] by (auto split: if_splits)
  have pos: "position (objects G1 (head s)) = position (objects G (head s))"
    using sub position_seekNibbles [of s G s1 G1] by (auto split: if_splits)
  have ap: "position (avoidWallsHead a) = position (avoidWallsHead b)" if "position a = position b" for a b
    using that by (simp add: avoidWallsHead_def Let_def)
  show "position (objects G' (head s)) = position (avoidWallsHead ((objects G (head s))))"
    unfolding G' avoidWalls_def hd using ap [OF pos] by simp
  then show "position (objects G' (head s)) = position (avoidWallsHead (objects G' (head s)\<lparr>position := position (objects G (head s))\<rparr>))"
    using ap [of "objects G (head s)" "objects G' (head s)\<lparr>position := position (objects G (head s))\<rparr>"] by simp
qed


lemma update_head_position:
  assumes u: "update T delta s G = (s', G')" and np: "\<not> isPlayer s"
      and h: "head s \<notin> set (segments s)"
  shows "vx (positionOf G' (head s)) =
           vx (position (avoidWallsHead ((objects G (head s))\<lparr>position :=
                 add (positionOf G (head s))
                     (multiplyScalar (getWorldDirection T (rotationOf G (head s)))
                        (speed s * delta * 60))\<rparr>)))"
    and "vz (positionOf G' (head s)) =
           vz (position (avoidWallsHead ((objects G (head s))\<lparr>position :=
                 add (positionOf G (head s))
                     (multiplyScalar (getWorldDirection T (rotationOf G (head s)))
                        (speed s * delta * 60))\<rparr>)))"
proof -
  let ?s1 = "s\<lparr>direction := getWorldDirection T (rotationOf G (head s))\<rparr>"
  let ?moved = "add (positionOf G (head s))
               (multiplyScalar (getWorldDirection T (rotationOf G (head s))) (speed s * delta * 60))"
  let ?G1 = "setPosition (head s) ?moved G"
  from u obtain s2 G2 t G3 G4 G5 where
    ai: "aiStep ?s1 ?G1 = (s2, G2)"
    and nw: "now G2 = (t, G3)"
    and G4: "G4 = setPosition (head s2)
                (Vec3 (vx (positionOf G3 (head s2)))
                      (vy (positionOf G3 (head s2)) + sin (t * 0.001 * 5 + colorOffset s2) * 0.5 * 0.1)
                      (vz (positionOf G3 (head s2)))) G3"
    and s': "s' = s2\<lparr>trail := pushTrail (settings_trailLength (gameSettings G4))
                               (positionOf G4 (head s2)) (trail s2)\<rparr>"
    and G5: "G5 = fold (updateSegment T s' (t * 0.001)) [0 ..< length (segments s')] G4"
    and G': "G' = (if isPlayer s' then updateObject G5 (head s') (positionOf G5 (head s')) else G5)"
    by (rule update_unfold)
  have s2: "head s2 = head s" "segments s2 = segments s"
    using snake_aiStep [OF ai] by simp_all
  have hs': "head s' = head s" "segments s' = segments s" using s' s2 by simp_all
  have o1: "objects ?G1 (head s) = (objects G (head s))\<lparr>position := ?moved\<rparr>"
    by (simp add: setPosition_def)
  have p2: "position (objects G2 (head s)) = position (avoidWallsHead ((objects G (head s))\<lparr>position := ?moved\<rparr>))"
    using aiStep_position(2) [OF ai] np o1 by simp
  have o3: "objects G3 = objects G2" by (rule objects_now [OF nw])
  have p4: "vx (positionOf G4 (head s)) = vx (position (objects G2 (head s)))"
           "vz (positionOf G4 (head s)) = vz (position (objects G2 (head s)))"
    by (simp_all add: G4 s2 setPosition_def positionOf_def o3)
  have "objects G5 (head s) = objects G4 (head s)"
    unfolding G5 by (rule objects_fold_updateSegment_head) (simp add: hs' h)
  then have "positionOf G' (head s) = positionOf G4 (head s)"
    by (simp add: G' positionOf_def)
  then show "vx (positionOf G' (head s)) =
           vx (position (avoidWallsHead ((objects G (head s))\<lparr>position := ?moved\<rparr>)))"
    and "vz (positionOf G' (head s)) =
           vz (position (avoidWallsHead ((objects G (head s))\<lparr>position := ?moved\<rparr>)))"
    using p4 p2 by simp_all
qed




section \<open>Dissolution: proofs\<close>

lemma nibbles_removeObject [simp]: "nibbles (removeObject G ob) = nibbles G"
  by (simp add: removeObject_def)

lemma nibbles_fold_removeObject [simp]:
  "nibbles (fold (\<lambda>segment G. removeObject G segment) segs G) = nibbles G"
  by (induction segs arbitrary: G) simp_all

lemma nextId_removeObject [simp]: "nextId (removeObject G ob) = nextId G"
  by (simp add: removeObject_def)

lemma nextId_fold_removeObject [simp]:
  "nextId (fold (\<lambda>segment G. removeObject G segment) segs G) = nextId G"
  by (induction segs arbitrary: G) simp_all

lemma objects_fold_removeObject [simp]:
  "objects (fold (\<lambda>segment G. removeObject G segment) segs G) = objects G"
  by (induction segs arbitrary: G) simp_all

lemma fields_updateObject [simp]:
  "nibbles (updateObject G ob p) = nibbles G"
  "nextId (updateObject G ob p) = nextId G"
  "randoms (updateObject G ob p) = randoms G"
  "clock (updateObject G ob p) = clock G"
  by (simp_all add: updateObject_def)

lemma createAt_effect:
  "nibbles (createAt pos rz G) = nibbles G @ [nextId G]"
  "nextId (createAt pos rz G) = Suc (nextId G)"
  "ob \<noteq> nextId G \<Longrightarrow> objects (createAt pos rz G) ob = objects G ob"
  "position (objects (createAt pos False G) (nextId G)) = pos"
  by (simp_all add: createAt_def create_def newObject_def setPosition_def sceneAdd_def
        random_def positionOf_def Let_def split: prod.splits)

lemma createAt_jitter:
  "position (objects (createAt pos True G) (nextId G)) =
     Vec3 (vx pos + (randoms G 0 - 0.5) * 2) (vy pos + (randoms G 1 - 0.5) * 2)
          (vz pos + (randoms G 2 - 0.5) * 2)"
  by (simp add: createAt_def create_def newObject_def setPosition_def sceneAdd_def
        random_def positionOf_def Let_def numeral_2_eq_2 split: prod.splits)

lemma dropN_Suc:
  "dropN segs rz (Suc k) G
     = createAt (positionOf (dropN segs rz k G) (segs ! k)) rz (dropN segs rz k G)"
  by (simp add: dropN_def)

lemma dropN_basic:
  "nibbles (dropN segs rz k G) = nibbles G @ [nextId G ..< nextId G + k] \<and>
   nextId (dropN segs rz k G) = nextId G + k \<and>
   (\<forall>ob < nextId G. objects (dropN segs rz k G) ob = objects G ob)"
proof (induction k)
  case 0
  show ?case by (simp add: dropN_def)
next
  case (Suc k)
  then show ?case unfolding dropN_Suc by (simp add: createAt_effect)
qed

lemma dropN_positions:
  assumes "k \<le> length segs" and "\<forall>seg \<in> set segs. seg < nextId G" and "i < k"
  shows "position (objects (dropN segs False k G) (nextId G + i)) = positionOf G (segs ! i)"
  using assms
proof (induction k)
  case 0
  then show ?case by simp
next
  case (Suc k)
  let ?Gk = "dropN segs False k G"
  have kl: "k < length segs" using Suc.prems by simp
  have segk: "segs ! k < nextId G" using Suc.prems(2) kl by simp
  have nk: "nextId ?Gk = nextId G + k" using dropN_basic [of segs False k G] by simp
  have pk: "positionOf ?Gk (segs ! k) = positionOf G (segs ! k)"
    using dropN_basic [of segs False k G] segk by (simp add: positionOf_def)
  show ?case
  proof (cases "i = k")
    case True
    then show ?thesis
      unfolding dropN_Suc using createAt_effect(4) [of "positionOf ?Gk (segs ! k)" ?Gk]
      by (simp add: nk pk)
  next
    case False
    then have ik: "i < k" using Suc.prems by simp
    have "nextId G + i \<noteq> nextId ?Gk" using ik by (simp add: nk)
    then show ?thesis
      unfolding dropN_Suc using Suc.IH [OF _ Suc.prems(2) ik] kl
      by (simp add: createAt_effect(3))
  qed
qed

lemma dropN_randoms: "randoms (dropN segs True k G) = (\<lambda>i. randoms G (i + 3 * k))"
proof (induction k)
  case 0
  show ?case by (simp add: dropN_def)
next
  case (Suc k)
  have "randoms (createAt pos True H) = (\<lambda>i. randoms H (i + 3))" for pos H
    by (simp add: createAt_def create_def newObject_def setPosition_def sceneAdd_def
          random_def Let_def numeral_3_eq_3 split: prod.splits)
  then show ?case unfolding dropN_Suc by (simp add: Suc add.assoc)
qed

lemma dropN_jitter:
  assumes "k \<le> length segs" and "\<forall>seg \<in> set segs. seg < nextId G" and "i < k"
      and "\<forall>j. 0 \<le> randoms G j \<and> randoms G j \<le> 1"
  shows "\<bar>vx (position (objects (dropN segs True k G) (nextId G + i))) - vx (positionOf G (segs ! i))\<bar> \<le> 1 \<and>
         \<bar>vy (position (objects (dropN segs True k G) (nextId G + i))) - vy (positionOf G (segs ! i))\<bar> \<le> 1 \<and>
         \<bar>vz (position (objects (dropN segs True k G) (nextId G + i))) - vz (positionOf G (segs ! i))\<bar> \<le> 1"
  using assms(1,3)
proof (induction k)
  case 0
  then show ?case by simp
next
  case (Suc k)
  let ?Gk = "dropN segs True k G"
  have kl: "k < length segs" using Suc.prems by simp
  have segk: "segs ! k < nextId G" using assms(2) kl by simp
  have nk: "nextId ?Gk = nextId G + k" using dropN_basic [of segs True k G] by simp
  have pk: "positionOf ?Gk (segs ! k) = positionOf G (segs ! k)"
    using dropN_basic [of segs True k G] segk by (simp add: positionOf_def)
  have rb: "0 \<le> randoms ?Gk j \<and> randoms ?Gk j \<le> 1" for j
    using assms(4) by (simp add: dropN_randoms)
  show ?case
  proof (cases "i = k")
    case True
    have b0: "\<bar>(randoms ?Gk 0 - 0.5) * 2\<bar> \<le> 1" using rb [of 0] by (simp add: abs_le_iff)
    have b1: "\<bar>(randoms ?Gk 1 - 0.5) * 2\<bar> \<le> 1" using rb [of 1] by (simp add: abs_le_iff)
    have b2: "\<bar>(randoms ?Gk 2 - 0.5) * 2\<bar> \<le> 1" using rb [of 2] by (simp add: abs_le_iff)
    show ?thesis
      unfolding dropN_Suc True
      using createAt_jitter [of "positionOf ?Gk (segs ! k)" ?Gk] b0 b1 b2
      by (simp add: nk [symmetric] pk)
  next
    case False
    then have ik: "i < k" using Suc.prems by simp
    have "nextId G + i \<noteq> nextId ?Gk" using ik by (simp add: nk)
    then show ?thesis
      unfolding dropN_Suc using Suc.IH [OF _ ik] kl
      by (simp add: createAt_effect(3))
  qed
qed

lemma fields_sceneRemove [simp]:
  "nibbles (sceneRemove ob G) = nibbles G"
  "position (objects (sceneRemove ob G) x) = position (objects G x)"
  by (simp_all add: sceneRemove_def)

lemma dispose_keeps:
  "nibbles (dispose s G) = nibbles G"
  "position (objects (dispose s G) x) = position (objects G x)"
proof -
  have f: "nibbles (fold (\<lambda>segment G. removeObject (sceneRemove segment G) segment) segs H) = nibbles H \<and>
           position (objects (fold (\<lambda>segment G. removeObject (sceneRemove segment G) segment) segs H) x)
             = position (objects H x)" for segs H
    by (induction segs arbitrary: H) simp_all
  show "nibbles (dispose s G) = nibbles G"
    by (simp add: dispose_def Let_def f)
  show "position (objects (dispose s G) x) = position (objects G x)"
    by (simp add: dispose_def Let_def f)
qed

lemma dissolveSnake_unfold:
  "dissolveSnake snake G =
     dispose snake
       ((\<lambda>G3. if isPlayer snake then G3\<lparr>isGameOver := True\<rparr>
               else G3\<lparr>shadowSnakes := filter (\<lambda>s. head s \<noteq> head snake) (shadowSnakes G3)\<rparr>)
        (dropN (segments snake) (\<not> isPlayer snake)
           (if isPlayer snake then min (length (segments snake)) (nibblesEaten snake)
            else length (segments snake))
           (fold (\<lambda>segment G. removeObject G segment) (segments snake)
              (removeObject G (head snake)))))"
  by (simp add: dissolveSnake_def dropN_def Let_def min_def)

text \<open>
  Claim C9. Dissolving a snake appends to the nibbles
  \<open>min(segments.length, nibblesEaten)\<close> new ones for the player and
  \<open>segments.length\<close> for a shadow snake. For the player they lie at the positions of
  its first segments, in order; for a shadow snake each lies within one unit, on every
  axis, of the position of the corresponding segment.
\<close>

theorem dissolution_nibble_count:
  "length (nibbles (dissolveSnake snake G))
     = length (nibbles G)
       + (if isPlayer snake then min (length (segments snake)) (nibblesEaten snake)
          else length (segments snake)) \<and>
   take (length (nibbles G)) (nibbles (dissolveSnake snake G)) = nibbles G \<and>
   (isPlayer snake \<and> (\<forall>seg \<in> set (segments snake). seg < nextId G)
      \<longrightarrow> map (positionOf (dissolveSnake snake G))
              (drop (length (nibbles G)) (nibbles (dissolveSnake snake G)))
          = map (positionOf G)
              (take (min (length (segments snake)) (nibblesEaten snake)) (segments snake))) \<and>
   (\<not> isPlayer snake \<and> (\<forall>seg \<in> set (segments snake). seg < nextId G) \<and>
    (\<forall>j. 0 \<le> randoms G j \<and> randoms G j \<le> 1)
      \<longrightarrow> (\<forall>i < length (segments snake).
             \<bar>vx (positionOf (dissolveSnake snake G)
                    (nibbles (dissolveSnake snake G) ! (length (nibbles G) + i)))
               - vx (positionOf G (segments snake ! i))\<bar> \<le> 1 \<and>
             \<bar>vy (positionOf (dissolveSnake snake G)
                    (nibbles (dissolveSnake snake G) ! (length (nibbles G) + i)))
               - vy (positionOf G (segments snake ! i))\<bar> \<le> 1 \<and>
             \<bar>vz (positionOf (dissolveSnake snake G)
                    (nibbles (dissolveSnake snake G) ! (length (nibbles G) + i)))
               - vz (positionOf G (segments snake ! i))\<bar> \<le> 1))"
proof -
  let ?segs = "segments snake"
  let ?k = "if isPlayer snake then min (length ?segs) (nibblesEaten snake) else length ?segs"
  let ?G2 = "fold (\<lambda>segment G. removeObject G segment) ?segs (removeObject G (head snake))"
  let ?G3 = "dropN ?segs (\<not> isPlayer snake) ?k ?G2"
  let ?G' = "dissolveSnake snake G"
  have kl: "?k \<le> length ?segs" by simp
  have n2: "nibbles ?G2 = nibbles G" and id2: "nextId ?G2 = nextId G"
    and o2: "objects ?G2 = objects G" by simp_all
  have p2: "positionOf ?G2 x = positionOf G x" for x by (simp add: positionOf_def)
  have n3: "nibbles ?G3 = nibbles G @ [nextId G ..< nextId G + ?k]"
    using dropN_basic [of ?segs "\<not> isPlayer snake" ?k ?G2] unfolding n2 id2 by blast
  have nib: "nibbles ?G' = nibbles G @ [nextId G ..< nextId G + ?k]"
  proof (cases "isPlayer snake")
    case True
    then show ?thesis unfolding dissolveSnake_unfold using n3 by (simp add: dispose_keeps)
  next
    case False
    then show ?thesis unfolding dissolveSnake_unfold using n3 by (simp add: dispose_keeps)
  qed
  have pos: "positionOf ?G' x = positionOf ?G3 x" for x
    unfolding dissolveSnake_unfold by (cases "isPlayer snake") (simp_all add: positionOf_def dispose_keeps)
  have c1: "length (nibbles ?G') = length (nibbles G) + ?k" by (simp add: nib)
  have c2: "take (length (nibbles G)) (nibbles ?G') = nibbles G" by (simp add: nib)
  have c3: "map (positionOf ?G') (drop (length (nibbles G)) (nibbles ?G'))
              = map (positionOf G) (take (min (length ?segs) (nibblesEaten snake)) ?segs)"
    if pl: "isPlayer snake" and old: "\<forall>seg \<in> set ?segs. seg < nextId G"
  proof (rule nth_equalityI)
    show "length (map (positionOf ?G') (drop (length (nibbles G)) (nibbles ?G')))
            = length (map (positionOf G) (take (min (length ?segs) (nibblesEaten snake)) ?segs))"
      using pl by (simp add: nib)
  next
    fix i
    assume "i < length (map (positionOf ?G') (drop (length (nibbles G)) (nibbles ?G')))"
    then have i: "i < min (length ?segs) (nibblesEaten snake)" using pl by (simp add: nib)
    have old2: "\<forall>seg \<in> set ?segs. seg < nextId ?G2" using old by (simp add: id2)
    have "position (objects (dropN ?segs False (min (length ?segs) (nibblesEaten snake)) ?G2)
                      (nextId ?G2 + i)) = positionOf ?G2 (?segs ! i)"
      by (rule dropN_positions [OF _ old2 i]) simp
    then have "positionOf ?G' (nextId G + i) = positionOf G (?segs ! i)"
      using pl by (simp add: pos [unfolded positionOf_def] positionOf_def id2 o2)
    then show "map (positionOf ?G') (drop (length (nibbles G)) (nibbles ?G')) ! i
                 = map (positionOf G) (take (min (length ?segs) (nibblesEaten snake)) ?segs) ! i"
      using i pl by (simp add: nib)
  qed
  have c4: "\<bar>vx (positionOf ?G' (nibbles ?G' ! (length (nibbles G) + i))) - vx (positionOf G (?segs ! i))\<bar> \<le> 1 \<and>
            \<bar>vy (positionOf ?G' (nibbles ?G' ! (length (nibbles G) + i))) - vy (positionOf G (?segs ! i))\<bar> \<le> 1 \<and>
            \<bar>vz (positionOf ?G' (nibbles ?G' ! (length (nibbles G) + i))) - vz (positionOf G (?segs ! i))\<bar> \<le> 1"
    if np: "\<not> isPlayer snake" and old: "\<forall>seg \<in> set ?segs. seg < nextId G"
      and rb: "\<forall>j. 0 \<le> randoms G j \<and> randoms G j \<le> 1" and i: "i < length ?segs" for i
  proof -
    have old2: "\<forall>seg \<in> set ?segs. seg < nextId ?G2" using old by (simp add: id2)
    have r2: "randoms ?G2 = randoms G"
    proof -
      have "randoms (fold (\<lambda>segment G. removeObject G segment) segs H) = randoms H" for segs H
        by (induction segs arbitrary: H) (simp_all add: removeObject_def)
      then show ?thesis by (simp add: removeObject_def)
    qed
    have rb2: "\<forall>j. 0 \<le> randoms ?G2 j \<and> randoms ?G2 j \<le> 1" using rb by (simp add: r2)
    have nth: "nibbles ?G' ! (length (nibbles G) + i) = nextId G + i"
      using np i by (simp add: nib nth_append)
    from dropN_jitter [OF _ old2 i rb2]
    show ?thesis
      using np by (simp add: nth pos [unfolded positionOf_def] positionOf_def id2 o2)
  qed
  show ?thesis using c1 c2 c3 c4 by blast
qed

theorem dissolution_nibble_count_witness:
  "isPlayer eightSegmentPlayer \<and> length (segments eightSegmentPlayer) = 8 \<and>
   nibblesEaten eightSegmentPlayer = 3 \<and>
   length (nibbles (dissolveSnake eightSegmentPlayer dissolveGame))
     = length (nibbles dissolveGame) + 3 \<and>
   map (positionOf (dissolveSnake eightSegmentPlayer dissolveGame))
       (drop (length (nibbles dissolveGame))
             (nibbles (dissolveSnake eightSegmentPlayer dissolveGame)))
     = map (positionOf dissolveGame) [13, 14, 15] \<and>
   \<not> isPlayer fiveSegmentShadow \<and> length (segments fiveSegmentShadow) = 5 \<and>
   nibblesEaten fiveSegmentShadow = 0 \<and>
   length (nibbles (dissolveSnake fiveSegmentShadow dissolveGame))
     = length (nibbles dissolveGame) + 5 \<and>
   \<bar>vx (positionOf (dissolveSnake fiveSegmentShadow dissolveGame)
          (nibbles (dissolveSnake fiveSegmentShadow dissolveGame) ! (length (nibbles dissolveGame) + 4)))
     - vx (positionOf dissolveGame 26)\<bar> \<le> 1"
proof -
  have p: "isPlayer eightSegmentPlayer" "length (segments eightSegmentPlayer) = 8"
    "nibblesEaten eightSegmentPlayer = 3"
    "segments eightSegmentPlayer = [13, 14, 15, 16, 17, 18, 19, 20]"
    by (simp_all add: eightSegmentPlayer_def exampleSnake_def)
  have s: "\<not> isPlayer fiveSegmentShadow" "length (segments fiveSegmentShadow) = 5"
    "nibblesEaten fiveSegmentShadow = 0" "segments fiveSegmentShadow = [22, 23, 24, 25, 26]"
    by (simp_all add: fiveSegmentShadow_def exampleSnake_def)
  have id: "nextId dissolveGame = 27" by (simp add: dissolveGame_def)
  have rb: "\<forall>j. 0 \<le> randoms dissolveGame j \<and> randoms dissolveGame j \<le> 1"
    by (simp add: dissolveGame_def exampleGame_def)
  have oldp: "\<forall>seg \<in> set (segments eightSegmentPlayer). seg < nextId dissolveGame"
    by (simp add: p(4) id)
  have olds: "\<forall>seg \<in> set (segments fiveSegmentShadow). seg < nextId dissolveGame"
    by (simp add: s(4) id)
  note rp = dissolution_nibble_count [of eightSegmentPlayer dissolveGame]
  note rs = dissolution_nibble_count [of fiveSegmentShadow dissolveGame]
  have a: "length (nibbles (dissolveSnake eightSegmentPlayer dissolveGame))
             = length (nibbles dissolveGame) + 3"
    using rp p by simp
  have b: "map (positionOf (dissolveSnake eightSegmentPlayer dissolveGame))
       (drop (length (nibbles dissolveGame))
             (nibbles (dissolveSnake eightSegmentPlayer dissolveGame)))
     = map (positionOf dissolveGame) (take (min (length (segments eightSegmentPlayer))
          (nibblesEaten eightSegmentPlayer)) (segments eightSegmentPlayer))"
    using rp p(1) oldp by blast
  have b': "map (positionOf (dissolveSnake eightSegmentPlayer dissolveGame))
       (drop (length (nibbles dissolveGame))
             (nibbles (dissolveSnake eightSegmentPlayer dissolveGame)))
     = map (positionOf dissolveGame) [13, 14, 15]"
    using b by (simp add: p)
  have c: "length (nibbles (dissolveSnake fiveSegmentShadow dissolveGame))
             = length (nibbles dissolveGame) + 5"
    using rs s by simp
  have "4 < length (segments fiveSegmentShadow)" by (simp add: s)
  then have d: "\<bar>vx (positionOf (dissolveSnake fiveSegmentShadow dissolveGame)
          (nibbles (dissolveSnake fiveSegmentShadow dissolveGame) ! (length (nibbles dissolveGame) + 4)))
     - vx (positionOf dissolveGame (segments fiveSegmentShadow ! 4))\<bar> \<le> 1"
    using rs s(1) olds rb by blast
  show ?thesis using p(1-3) s(1-3) a b' c d by (simp add: s(4))
qed

section \<open>Shadow snake spawning: proofs\<close>

lemma fold_addSegment:
  "fold (\<lambda>i (s, G). addSegment True s G) is (s, G) = (s', G') \<Longrightarrow>
     control G' = control G \<and> head s' = head s \<and> isPlayer s' = isPlayer s \<and>
     nibblesEaten s' = nibblesEaten s"
proof (induction "is" arbitrary: s G)
  case Nil
  then show ?case by simp
next
  case (Cons i "is")
  obtain s1 G1 where a: "addSegment True s G = (s1, G1)" by (cases "addSegment True s G") auto
  have "fold (\<lambda>i (s, G). addSegment True s G) is (s1, G1) = (s', G')"
    using Cons.prems a by simp
  from Cons.IH [OF this] control_addSegment [OF a] snake_addSegment [OF a]
  show ?case by simp
qed

lemma newSnake_effect:
  assumes "newSnake player G = (s, G')"
  shows "control G' = control G" and "isPlayer s = player" and "clock G' = clock G"
proof -
  obtain h G1 where n: "newObject None G = (h, G1)" by (cases "newObject None G") auto
  obtain r G2 where r: "random G1 = (r, G2)" by (cases "random G1") auto
  let ?s0 = "\<lparr>isPlayer = player, direction = Vec3 0 0 (- 1),
                   speed = (if player then settings_speed (gameSettings G2)
                            else settings_shadowSpeed (gameSettings G2)),
                   segments = [], trail = [], head = h, colorOffset = r * pi * 2,
                   snakeLength = 5, creationTime = 0, isInitialReflectionPhase = False,
                   targetDirection = Vec3 0 0 0, nibblesEaten = 0\<rparr>"
  let ?G4 = "updateObject (sceneAdd h G2) h (positionOf (sceneAdd h G2) h)"
  obtain s1 G5 where f: "fold (\<lambda>i (s, G). addSegment True s G) [0 ..< snakeLength ?s0] (?s0, ?G4) = (s1, G5)"
    by (cases "fold (\<lambda>i (s, G). addSegment True s G) [0 ..< snakeLength ?s0] (?s0, ?G4)") auto
  have res: "s = s1\<lparr>trail := map (\<lambda>i. add (positionOf G5 h)
                                    (multiplyScalar (direction s1) (- real i * SEGMENT_SPACING)))
                                 [0 ..< settings_trailLength (gameSettings G5)]\<rparr>" "G' = G5"
    using assms n r f by (auto simp: newSnake_def Let_def)
  have c4: "control ?G4 = control G"
    using control_pairs(1) [OF n] control_pairs(2) [OF r] by simp
  from fold_addSegment [OF f] show "control G' = control G" "isPlayer s = player"
    using c4 res by simp_all
  have ck: "clock H' = clock H" if "addSegment True t H = (t', H')" for t H t' H'
    using that by (auto simp: addSegment_def newObject_def setPosition_def sceneAdd_def
        updateObject_def Let_def split: prod.splits)
  have fk: "fold (\<lambda>i (s, G). addSegment True s G) is (t, H) = (t', H') \<Longrightarrow> clock H' = clock H"
    for "is" t H t' H'
  proof (induction "is" arbitrary: t H)
    case Nil
    then show ?case by simp
  next
    case (Cons i "is")
    obtain t1 H1 where a: "addSegment True t H = (t1, H1)" by (cases "addSegment True t H") auto
    have "fold (\<lambda>i (s, G). addSegment True s G) is (t1, H1) = (t', H')" using Cons.prems a by simp
    from Cons.IH [OF this] ck [OF a] show ?case by simp
  qed
  have "clock ?G4 = clock G"
    using n r by (auto simp: newObject_def random_def sceneAdd_def updateObject_def)
  then show "clock G' = clock G" using fk [OF f] res by simp
qed

lemma spawnShadowSnake_dropped:
  assumes "clock G 0 - lastShadowSpawnTime G < SHADOW_SPAWN_DELAY"
  shows "spawnShadowSnake T w n G = G\<lparr>clock := (\<lambda>i. clock G (Suc i))\<rparr>"
  using assms by (simp add: spawnShadowSnake_def now_def)

lemma spawnShadowSnake_spawned:
  assumes "\<not> clock G 0 - lastShadowSpawnTime G < SHADOW_SPAWN_DELAY"
  shows "\<exists>shadow. shadowSnakes (spawnShadowSnake T w n G) = shadowSnakes G @ [shadow] \<and>
           \<not> isPlayer shadow \<and> isInitialReflectionPhase shadow \<and>
           creationTime shadow = clock G 0 \<and>
           timers (spawnShadowSnake T w n G) = timers G @ [(clock G 0, head shadow)]"
    and "lastShadowSpawnTime (spawnShadowSnake T w n G) = clock G 0"
    and "isShadowSnakeInvulnerable (spawnShadowSnake T w n G)"
    and "isGameOver (spawnShadowSnake T w n G) = isGameOver G"
    and "collisionChecks (spawnShadowSnake T w n G) = collisionChecks G"
    and "playerSnake (spawnShadowSnake T w n G) = playerSnake G"
proof -
  let ?G2 = "G\<lparr>clock := (\<lambda>i. clock G (Suc i)), lastShadowSpawnTime := clock G 0,
               isShadowSnakeInvulnerable := True\<rparr>"
  obtain s G3 where ns: "newSnake False ?G2 = (s, G3)" by (cases "newSnake False ?G2") auto
  have c3: "control G3 = control ?G2" and ip: "isPlayer s = False"
    using newSnake_effect [OF ns] by simp_all
  have f3: "shadowSnakes G3 = shadowSnakes G" "timers G3 = timers G"
    "lastShadowSpawnTime G3 = clock G 0" "isShadowSnakeInvulnerable G3"
    "isGameOver G3 = isGameOver G" "collisionChecks G3 = collisionChecks G"
    "playerSnake G3 = playerSnake G"
    using c3 by (simp_all add: control_def)
  have u: "spawnShadowSnake T w n G =
     (let insetAmount = 2;
                  spawnPosition =
                    Vec3 (if \<bar>vx w\<bar> \<ge> CUBE_HALF_SIZE
                          then sgn (vx w) * (CUBE_HALF_SIZE - insetAmount)
                          else vx w)
                         (if \<bar>vy w\<bar> \<ge> CUBE_HALF_SIZE
                          then sgn (vy w) * (CUBE_HALF_SIZE - insetAmount)
                          else vy w)
                         (if \<bar>vz w\<bar> \<ge> CUBE_HALF_SIZE
                          then sgn (vz w) * (CUBE_HALF_SIZE - insetAmount)
                          else vz w);
                  G4 = setPosition (head s) spawnPosition G3;
                  playerDirection =
                    (case playerSnake G4 of
                       Some ps \<Rightarrow> getWorldDirection T (rotationOf G4 (head ps))
                     | None \<Rightarrow> Vec3 0 0 0);
                  reflectedDirection = reflect playerDirection n;
                  lookAtPos = moveForward (positionOf G4 (head s)) reflectedDirection 1;
                  G5 = setRotation (head s)
                         (lookAt T (positionOf G4 (head s)) lookAtPos) G4;
                  shadow = s\<lparr>creationTime := clock G 0,
                                         isInitialReflectionPhase := True,
                                         targetDirection := reflectedDirection,
                                         speed := settings_shadowSpeed (gameSettings G5),
                                         nibblesEaten := 0\<rparr>
              in G5\<lparr>shadowSnakes := shadowSnakes G5 @ [shadow],
                    timers := timers G5 @ [(clock G 0, head shadow)]\<rparr>)"
    using assms ns by (simp add: spawnShadowSnake_def now_def)
  show "\<exists>shadow. shadowSnakes (spawnShadowSnake T w n G) = shadowSnakes G @ [shadow] \<and>
           \<not> isPlayer shadow \<and> isInitialReflectionPhase shadow \<and>
           creationTime shadow = clock G 0 \<and>
           timers (spawnShadowSnake T w n G) = timers G @ [(clock G 0, head shadow)]"
    unfolding u Let_def by (simp add: setPosition_def setRotation_def f3 ip)
  show "lastShadowSpawnTime (spawnShadowSnake T w n G) = clock G 0"
    and "isShadowSnakeInvulnerable (spawnShadowSnake T w n G)"
    and "isGameOver (spawnShadowSnake T w n G) = isGameOver G"
    and "collisionChecks (spawnShadowSnake T w n G) = collisionChecks G"
    and "playerSnake (spawnShadowSnake T w n G) = playerSnake G"
    unfolding u Let_def by (simp_all add: setPosition_def setRotation_def f3)
qed

text \<open>
  Claim C8. A crossing whose time is less than 3000 ms after the last shadow spawn time
  is dropped: the game state is unchanged apart from the clock reading consumed. A
  crossing creates at most one shadow snake, and of two crossings whose times differ by
  less than 3000 ms, the later one processed in a state whose last spawn time is not
  earlier than the one the first crossing left, at most one creates a shadow snake.
\<close>

theorem shadow_spawn_rate_limited:
  "(clock G 0 - lastShadowSpawnTime G < SHADOW_SPAWN_DELAY
      \<longrightarrow> spawnShadowSnake T w n G = G\<lparr>clock := (\<lambda>i. clock G (Suc i))\<rparr>) \<and>
   length (shadowSnakes (spawnShadowSnake T w n G)) \<le> length (shadowSnakes G) + 1 \<and>
   (\<forall>G2 w2 n2.
      lastShadowSpawnTime (spawnShadowSnake T w n G) \<le> lastShadowSpawnTime G2 \<and>
      clock G2 0 - clock G 0 < SHADOW_SPAWN_DELAY
      \<longrightarrow> shadowSnakes (spawnShadowSnake T w n G) = shadowSnakes G \<or>
          shadowSnakes (spawnShadowSnake T w2 n2 G2) = shadowSnakes G2)"
proof (cases "clock G 0 - lastShadowSpawnTime G < SHADOW_SPAWN_DELAY")
  case True
  then show ?thesis by (simp add: spawnShadowSnake_dropped)
next
  case False
  obtain shadow where sh: "shadowSnakes (spawnShadowSnake T w n G) = shadowSnakes G @ [shadow]"
    using spawnShadowSnake_spawned(1) [OF False] by blast
  have l: "lastShadowSpawnTime (spawnShadowSnake T w n G) = clock G 0"
    by (rule spawnShadowSnake_spawned(2) [OF False])
  have second: "shadowSnakes (spawnShadowSnake T w2 n2 G2) = shadowSnakes G2"
    if "lastShadowSpawnTime (spawnShadowSnake T w n G) \<le> lastShadowSpawnTime G2"
      and "clock G2 0 - clock G 0 < SHADOW_SPAWN_DELAY" for G2 w2 n2
  proof -
    have "clock G2 0 - lastShadowSpawnTime G2 < SHADOW_SPAWN_DELAY" using that l by simp
    then show ?thesis by (simp add: spawnShadowSnake_dropped)
  qed
  show ?thesis using False sh second by simp
qed

theorem shadow_spawn_rate_limited_witness:
  "clock crossingGame 0 - lastShadowSpawnTime crossingGame < SHADOW_SPAWN_DELAY \<and>
   spawnShadowSnake exampleThree (Vec3 50 0 0) (Vec3 (- 1) 0 0) crossingGame
     = crossingGame\<lparr>clock := (\<lambda>i. clock crossingGame (Suc i))\<rparr> \<and>
   length (shadowSnakes
       (spawnShadowSnake exampleThree (Vec3 50 0 0) (Vec3 (- 1) 0 0) lateCrossingGame)) = 1 \<and>
   lastShadowSpawnTime
       (spawnShadowSnake exampleThree (Vec3 50 0 0) (Vec3 (- 1) 0 0) lateCrossingGame)
     \<le> lastShadowSpawnTime
         ((spawnShadowSnake exampleThree (Vec3 50 0 0) (Vec3 (- 1) 0 0) lateCrossingGame)
            \<lparr>clock := (\<lambda>i. 7000)\<rparr>) \<and>
   clock ((spawnShadowSnake exampleThree (Vec3 50 0 0) (Vec3 (- 1) 0 0) lateCrossingGame)
            \<lparr>clock := (\<lambda>i. 7000)\<rparr>) 0
     - clock lateCrossingGame 0 < SHADOW_SPAWN_DELAY \<and>
   shadowSnakes
     (spawnShadowSnake exampleThree (Vec3 0 50 0) (Vec3 0 (- 1) 0)
        ((spawnShadowSnake exampleThree (Vec3 50 0 0) (Vec3 (- 1) 0 0) lateCrossingGame)
            \<lparr>clock := (\<lambda>i. 7000)\<rparr>))
     = shadowSnakes
        ((spawnShadowSnake exampleThree (Vec3 50 0 0) (Vec3 (- 1) 0 0) lateCrossingGame)
            \<lparr>clock := (\<lambda>i. 7000)\<rparr>)"
proof -
  let ?w = "Vec3 50 0 0" and ?n = "Vec3 (- 1) 0 0"
  let ?G1 = "spawnShadowSnake exampleThree ?w ?n lateCrossingGame"
  let ?G2 = "?G1\<lparr>clock := (\<lambda>i. 7000)\<rparr>"
  have f: "clock crossingGame 0 = 0" "lastShadowSpawnTime crossingGame = 0"
    "clock lateCrossingGame 0 = 5000" "lastShadowSpawnTime lateCrossingGame = 0"
    "shadowSnakes lateCrossingGame = []"
    by (simp_all add: lateCrossingGame_def crossingGame_def placeObject_def exampleGame_def
          updateObject_def Let_def)
  have h1: "clock crossingGame 0 - lastShadowSpawnTime crossingGame < SHADOW_SPAWN_DELAY"
    by (simp add: f constants_defs)
  have late: "\<not> clock lateCrossingGame 0 - lastShadowSpawnTime lateCrossingGame < SHADOW_SPAWN_DELAY"
    by (simp add: f constants_defs)
  obtain shadow where sh: "shadowSnakes ?G1 = shadowSnakes lateCrossingGame @ [shadow]"
    using spawnShadowSnake_spawned(1) [OF late] by blast
  have one: "length (shadowSnakes ?G1) = 1" by (simp add: sh f)
  have h2: "lastShadowSpawnTime ?G1 \<le> lastShadowSpawnTime ?G2" by simp
  have h3: "clock ?G2 0 - clock lateCrossingGame 0 < SHADOW_SPAWN_DELAY"
    by (simp add: f constants_defs)
  note r1 = shadow_spawn_rate_limited [of crossingGame exampleThree ?w ?n]
  note r2 = shadow_spawn_rate_limited [of lateCrossingGame exampleThree ?w ?n]
  have a: "spawnShadowSnake exampleThree ?w ?n crossingGame
             = crossingGame\<lparr>clock := (\<lambda>i. clock crossingGame (Suc i))\<rparr>"
    using r1 h1 by blast
  have "shadowSnakes ?G1 = shadowSnakes lateCrossingGame \<or>
        shadowSnakes (spawnShadowSnake exampleThree (Vec3 0 50 0) (Vec3 0 (- 1) 0) ?G2)
          = shadowSnakes ?G2"
    using r2 h2 h3 by blast
  then have b: "shadowSnakes (spawnShadowSnake exampleThree (Vec3 0 50 0) (Vec3 0 (- 1) 0) ?G2)
          = shadowSnakes ?G2"
    using sh by simp
  show ?thesis using h1 a one h2 h3 b by blast
qed

section \<open>The frame update: proofs\<close>

lemma vitals_control: "control G' = control G \<Longrightarrow> vitals G' = vitals G"
  by (simp add: control_def vitals_def)

lemma vitals_updatePlayer: "vitals (updatePlayer T delta G) = vitals G"
proof (cases "playerSnake G")
  case None
  then show ?thesis by (simp add: updatePlayer_def)
next
  case (Some ps)
  obtain ps' G' where u: "update T delta ps G = (ps', G')" by (cases "update T delta ps G") auto
  have "vitals G' = vitals G" using control_update [OF u] by (rule vitals_control)
  then show ?thesis using Some u by (simp add: updatePlayer_def vitals_def)
qed

lemma vitals_updateShadow:
  assumes "index < length (shadowSnakes G)"
  shows "vitals (updateShadow T time delta index G) = vitals G"
proof (cases "js_rem \<lfloor>time * 60\<rfloor> 2 = js_rem (int index) 2")
  case False
  then show ?thesis by (simp add: updateShadow_def)
next
  case True
  obtain s' G' where u: "update T delta (shadowSnakes G ! index) G = (s', G')"
    by (cases "update T delta (shadowSnakes G ! index) G") auto
  have c: "control G' = control G" by (rule control_update [OF u])
  have h: "head s' = head (shadowSnakes G ! index)" using snake_update [OF u] by simp
  have sh: "shadowSnakes G' = shadowSnakes G" using c by (simp add: control_def)
  have "map head ((shadowSnakes G)[index := s']) = map head (shadowSnakes G)"
    using assms h by (simp add: map_update list_update_same_conv)
  then show ?thesis
    using True u vitals_control [OF c] by (simp add: updateShadow_def vitals_def sh)
qed

lemma vitals_fold_updateShadow:
  assumes "\<forall>i \<in> set is. i < length (shadowSnakes G)"
  shows "vitals (fold (updateShadow T time delta) is G) = vitals G"
  using assms
proof (induction "is" arbitrary: G)
  case Nil
  then show ?case by simp
next
  case (Cons i "is")
  have v: "vitals (updateShadow T time delta i G) = vitals G"
    by (rule vitals_updateShadow) (use Cons.prems in simp)
  then have "map head (shadowSnakes (updateShadow T time delta i G)) = map head (shadowSnakes G)"
    by (simp add: vitals_def)
  from arg_cong [OF this, of length]
  have "length (shadowSnakes (updateShadow T time delta i G)) = length (shadowSnakes G)"
    by simp
  then have "vitals (fold (updateShadow T time delta) is (updateShadow T time delta i G))
               = vitals (updateShadow T time delta i G)"
    using Cons.prems by (intro Cons.IH) simp
  then show ?case using v by simp
qed

lemma undisturbed_vitals: "vitals G' = vitals G \<Longrightarrow> undisturbed G G'"
  by (simp add: vitals_def undisturbed_def)

lemma undisturbed_trans:
  assumes "undisturbed A B" and "undisturbed B C"
  shows "undisturbed A C"
proof -
  have ab: "take (length (shadowSnakes A)) (map head (shadowSnakes B)) = map head (shadowSnakes A)"
    and bc: "take (length (shadowSnakes B)) (map head (shadowSnakes C)) = map head (shadowSnakes B)"
    using assms by (simp_all add: undisturbed_def)
  have "length (shadowSnakes A) \<le> length (shadowSnakes B)"
    using arg_cong [OF ab, of length] by simp
  then have "take (length (shadowSnakes A)) (map head (shadowSnakes C))
          = take (length (shadowSnakes A)) (take (length (shadowSnakes B)) (map head (shadowSnakes C)))"
    by (simp add: min_def)
  then have "take (length (shadowSnakes A)) (map head (shadowSnakes C)) = map head (shadowSnakes A)"
    using ab bc by simp
  then show ?thesis using assms by (simp add: undisturbed_def)
qed

lemma checkCubeBoundary_quiet:
  "undisturbed G (checkCubeBoundary T G) \<and>
   (isShadowSnakeInvulnerable G \<longrightarrow> isShadowSnakeInvulnerable (checkCubeBoundary T G)) \<and>
   (playerSnake (checkCubeBoundary T G) = None \<longleftrightarrow> playerSnake G = None)"
proof -
  have sp: "undisturbed G (spawnShadowSnake T w n G) \<and>
            (isShadowSnakeInvulnerable G \<longrightarrow> isShadowSnakeInvulnerable (spawnShadowSnake T w n G)) \<and>
            (playerSnake (spawnShadowSnake T w n G) = None \<longleftrightarrow> playerSnake G = None)" for w n
  proof (cases "clock G 0 - lastShadowSpawnTime G < SHADOW_SPAWN_DELAY")
    case True
    then show ?thesis by (simp add: spawnShadowSnake_dropped undisturbed_def)
  next
    case False
    from spawnShadowSnake_spawned [OF False, of T w n]
    show ?thesis by (auto simp: undisturbed_def)
  qed
  have refl: "undisturbed G G" by (simp add: undisturbed_def)
  have "checkCubeBoundary T G = G \<or> (\<exists>w n. checkCubeBoundary T G = spawnShadowSnake T w n G)"
    by (auto simp: checkCubeBoundary_def Let_def split: option.splits)
  then show ?thesis
  proof
    assume "checkCubeBoundary T G = G"
    then show ?thesis using refl by simp
  next
    assume "\<exists>w n. checkCubeBoundary T G = spawnShadowSnake T w n G"
    then obtain w n where "checkCubeBoundary T G = spawnShadowSnake T w n G" by blast
    then show ?thesis using sp [of w n] by simp
  qed
qed

lemma vitals_collectPlayer: "collectPlayer G = Some G' \<Longrightarrow> vitals G' = vitals G"
proof -
  assume a: "collectPlayer G = Some G'"
  show ?thesis
  proof (cases "playerSnake G")
    case None
    then show ?thesis using a by (simp add: collectPlayer_def)
  next
    case (Some ps)
    show ?thesis
    proof (cases "findNearby G (positionOf G (head ps)) \<noteq> - 1")
      case False
      then show ?thesis using a Some by (simp add: collectPlayer_def Let_def)
    next
      case True
      let ?G1 = "removeByIndex (findNearby G (positionOf G (head ps))) G"
      obtain s1 G2 where ad: "addSegment False ps ?G1 = (s1, G2)"
        by (cases "addSegment False ps ?G1") auto
      let ?G3 = "G2\<lparr>playerSnake := Some (s1\<lparr>nibblesEaten := nibblesEaten s1 + 1\<rparr>),
                    score := score G2 + 1\<rparr>"
      have sp: "spawn ?G3 = Some G'"
        using a Some True ad by (simp add: collectPlayer_def Let_def)
      have "control G2 = control G" using control_addSegment [OF ad] by simp
      then have v2: "vitals G2 = vitals G" by (rule vitals_control)
      have "vitals ?G3 = vitals G" using v2 Some by (simp add: vitals_def)
      then show ?thesis using vitals_control [OF control_spawn [OF sp]] by simp
    qed
  qed
qed

lemma vitals_collectShadows:
  assumes "collectShadows is G = Some G'" and "\<forall>i \<in> set is. i < length (shadowSnakes G)"
  shows "vitals G' = vitals G"
  using assms
proof (induction "is" arbitrary: G)
  case Nil
  then show ?case by simp
next
  case (Cons i "is")
  let ?snake = "shadowSnakes G ! i"
  show ?case
  proof (cases "findNearby G (positionOf G (head ?snake)) \<noteq> - 1")
    case False
    then have "collectShadows is G = Some G'" using Cons.prems(1) by (simp add: Let_def)
    then show ?thesis using Cons.IH Cons.prems(2) by simp
  next
    case True
    let ?G1 = "removeByIndex (findNearby G (positionOf G (head ?snake))) G"
    obtain s1 G2 where ad: "addSegment False ?snake ?G1 = (s1, G2)"
      by (cases "addSegment False ?snake ?G1") auto
    let ?G3 = "G2\<lparr>shadowSnakes := (shadowSnakes G2)[i := s1\<lparr>nibblesEaten := nibblesEaten s1 + 1\<rparr>]\<rparr>"
    obtain G4 where sp: "spawn ?G3 = Some G4" and rest: "collectShadows is G4 = Some G'"
      using Cons.prems(1) True ad by (auto simp: Let_def split: option.splits)
    have c2: "control G2 = control G" using control_addSegment [OF ad] by simp
    have sh2: "shadowSnakes G2 = shadowSnakes G" using c2 by (simp add: control_def)
    have hd: "head s1 = head ?snake" using snake_addSegment [OF ad] by simp
    have il: "i < length (shadowSnakes G)" using Cons.prems(2) by simp
    have "map head ((shadowSnakes G)[i := s1\<lparr>nibblesEaten := nibblesEaten s1 + 1\<rparr>])
            = map head (shadowSnakes G)"
      using il hd by (simp add: map_update list_update_same_conv)
    then have v3: "vitals ?G3 = vitals G"
      using vitals_control [OF c2] by (simp add: vitals_def sh2)
    have v4: "vitals G4 = vitals G" using vitals_control [OF control_spawn [OF sp]] v3 by simp
    then have "map head (shadowSnakes G4) = map head (shadowSnakes G)"
      by (simp add: vitals_def)
    from arg_cong [OF this, of length]
    have "length (shadowSnakes G4) = length (shadowSnakes G)" by simp
    then have "vitals G' = vitals G4" using Cons.IH [OF rest] Cons.prems(2) by simp
    then show ?thesis using v4 by simp
  qed
qed

lemma vitals_checkNibbleCollection:
  assumes "checkNibbleCollection time G = Some G'"
  shows "vitals G' = vitals G"
proof (cases "playerSnake G")
  case None
  then show ?thesis using assms by (simp add: checkNibbleCollection_def)
next
  case (Some ps)
  obtain G1 where cp: "collectPlayer G = Some G1"
    and r: "(if \<lfloor>time * 60\<rfloor> mod 3 = 0 then collectShadows [0 ..< length (shadowSnakes G1)] G1
            else Some G1) = Some G'"
    using assms Some by (auto simp: checkNibbleCollection_def split: option.splits)
  have v1: "vitals G1 = vitals G" by (rule vitals_collectPlayer [OF cp])
  show ?thesis
  proof (cases "\<lfloor>time * 60\<rfloor> mod 3 = 0")
    case True
    then have "collectShadows [0 ..< length (shadowSnakes G1)] G1 = Some G'" using r by simp
    from vitals_collectShadows [OF this] v1 show ?thesis by simp
  next
    case False
    then show ?thesis using r v1 by simp
  qed
qed

lemma beforeCollisions_quiet:
  assumes "beforeCollisions T time delta G = Some G'"
  shows "undisturbed G G'"
    and "isShadowSnakeInvulnerable G \<Longrightarrow> isShadowSnakeInvulnerable G'"
proof -
  let ?G1 = "updatePlayer T delta G"
  let ?G2 = "fold (updateShadow T time delta) [0 ..< length (shadowSnakes ?G1)] ?G1"
  let ?G3 = "if playerSnake ?G2 \<noteq> None then checkCubeBoundary T ?G2 else ?G2"
  have "vitals ?G2 = vitals ?G1"
    by (rule vitals_fold_updateShadow) simp
  then have v2: "vitals ?G2 = vitals G"
    using vitals_updatePlayer [of T delta G] by simp
  have r2: "undisturbed ?G2 ?G2" by (rule undisturbed_vitals) simp
  have q3: "undisturbed ?G2 ?G3 \<and>
            (isShadowSnakeInvulnerable ?G2 \<longrightarrow> isShadowSnakeInvulnerable ?G3)"
  proof (cases "playerSnake ?G2 \<noteq> None")
    case True
    then have "?G3 = checkCubeBoundary T ?G2" by simp
    then show ?thesis using checkCubeBoundary_quiet [of ?G2 T] by (simp only:) blast
  next
    case False
    then have "?G3 = ?G2" by simp
    then show ?thesis using r2 by (simp only:) blast
  qed
  obtain G4 where cn: "checkNibbleCollection time ?G3 = Some G4"
    using assms by (auto simp: beforeCollisions_def Let_def split: option.splits)
  obtain t G5 where nw: "now G4 = (t, G5)" by (cases "now G4") auto
  have v4: "vitals G4 = vitals ?G3" by (rule vitals_checkNibbleCollection [OF cn])
  have v5: "vitals G5 = vitals G4" using control_pairs(3) [OF nw] by (rule vitals_control)
  have "vitals G' = vitals G5"
  proof (cases "t - lastSpawnTime G5 > SPAWN_INTERVAL / settings_spawnRate (gameSettings G5)")
    case False
    then have "G' = G5" using assms cn nw by (simp add: beforeCollisions_def Let_def)
    then show ?thesis by simp
  next
    case True
    then obtain G6 where sp: "spawn G5 = Some G6" and g: "G' = G6\<lparr>lastSpawnTime := t\<rparr>"
      using assms cn nw by (auto simp: beforeCollisions_def Let_def split: option.splits)
    have "vitals G6 = vitals G5" using control_spawn [OF sp] by (rule vitals_control)
    then show ?thesis by (simp add: g vitals_def)
  qed
  then have v': "vitals G' = vitals ?G3" using v5 v4 by simp
  have u3: "undisturbed G ?G3"
    using undisturbed_trans [OF undisturbed_vitals [OF v2]] q3 by blast
  show "undisturbed G G'"
    using undisturbed_trans [OF u3 undisturbed_vitals [OF v']] .
  show "isShadowSnakeInvulnerable G'" if "isShadowSnakeInvulnerable G"
  proof -
    have "isShadowSnakeInvulnerable ?G2" using that v2 by (simp add: vitals_def)
    then have "isShadowSnakeInvulnerable ?G3" using q3 by blast
    then show ?thesis using v' by (simp add: vitals_def)
  qed
qed

lemma control_fold_removeObject [simp]:
  "control (fold (\<lambda>segment G. removeObject G segment) segs G) = control G"
  by (induction segs arbitrary: G) simp_all

lemma control_dropN [simp]: "control (dropN segs rz k G) = control G"
  by (induction k) (simp_all add: dropN_def)

lemma flag_dispose [simp]:
  "isShadowSnakeInvulnerable (dispose s G) = isShadowSnakeInvulnerable G"
proof -
  have f: "control (fold (\<lambda>segment G. removeObject (sceneRemove segment G) segment) segs H) = control H"
    for segs H by (induction segs arbitrary: H) simp_all
  have "isShadowSnakeInvulnerable (fold (\<lambda>segment G. removeObject (sceneRemove segment G) segment) segs H)
          = isShadowSnakeInvulnerable H" for segs H
    using f [of segs H] by (simp add: control_def)
  moreover have "isShadowSnakeInvulnerable (removeObject H ob) = isShadowSnakeInvulnerable H"
    and "isShadowSnakeInvulnerable (sceneRemove ob H) = isShadowSnakeInvulnerable H" for H ob
    by (simp_all add: removeObject_def sceneRemove_def)
  ultimately show ?thesis by (simp add: dispose_def Let_def)
qed

lemma flag_dissolveSnake [simp]:
  "isShadowSnakeInvulnerable (dissolveSnake snake G) = isShadowSnakeInvulnerable G"
proof -
  let ?G3 = "dropN (segments snake) (\<not> isPlayer snake)
           (if isPlayer snake then min (length (segments snake)) (nibblesEaten snake)
            else length (segments snake))
           (fold (\<lambda>segment G. removeObject G segment) (segments snake)
              (removeObject G (head snake)))"
  have "control ?G3 = control G" by simp
  then have "isShadowSnakeInvulnerable ?G3 = isShadowSnakeInvulnerable G"
    by (simp add: control_def)
  then show ?thesis
    unfolding dissolveSnake_unfold by (cases "isPlayer snake") simp_all
qed

lemma flag_resolveCollisions [simp]:
  "isShadowSnakeInvulnerable (resolveCollisions cs G) = isShadowSnakeInvulnerable G"
proof (induction cs G rule: resolveCollisions.induct)
  case (1 G)
  then show ?case by simp
next
  case (2 obj d rest G)
  then show ?case by (cases "playerSnake G") (simp_all add: Let_def)
next
  case (3 shadow obj d rest G)
  then show ?case by (cases "playerSnake G") (simp_all add: Let_def)
qed

lemma flag_Game_checkCollisions [simp]:
  "isShadowSnakeInvulnerable (Game_checkCollisions G) = isShadowSnakeInvulnerable G"
  by (simp add: Game_checkCollisions_def checkCollisions_def Let_def split: option.splits)

lemma updateGameLogic_invulnerable:
  assumes "updateGameLogic T time delta G = Some G'" and "isShadowSnakeInvulnerable G'"
  shows "beforeCollisions T time delta G = Some G'" and "undisturbed G G'"
proof -
  obtain G6 where b: "beforeCollisions T time delta G = Some G6"
    using assms(1) by (auto simp: updateGameLogic_def split: option.splits)
  have "G' = G6"
  proof (cases "playerSnake G6 \<noteq> None \<and> \<not> isShadowSnakeInvulnerable G6")
    case True
    then have "G' = Game_checkCollisions G6" using assms(1) b by (simp add: updateGameLogic_def)
    then have "isShadowSnakeInvulnerable G' = isShadowSnakeInvulnerable G6" by simp
    then show ?thesis using True assms(2) by simp
  next
    case False
    then show ?thesis using assms(1) b by (auto simp: updateGameLogic_def)
  qed
  then show "beforeCollisions T time delta G = Some G'" using b by simp
  then show "undisturbed G G'" by (rule beforeCollisions_quiet(1))
qed

lemma updateGameLogic_keeps_window:
  assumes "updateGameLogic T time delta G = Some G'" and "isShadowSnakeInvulnerable G"
  shows "isShadowSnakeInvulnerable G'"
proof -
  obtain G6 where b: "beforeCollisions T time delta G = Some G6"
    using assms(1) by (auto simp: updateGameLogic_def split: option.splits)
  have f: "isShadowSnakeInvulnerable G6" using beforeCollisions_quiet(2) [OF b assms(2)] .
  then have "G' = G6" using assms(1) b by (simp add: updateGameLogic_def)
  then show ?thesis using f by simp
qed

lemma animateFrames_invulnerable:
  assumes "animateFrames T frames G = Some G'" and "isShadowSnakeInvulnerable G"
  shows "isShadowSnakeInvulnerable G' \<and> undisturbed G G'"
  using assms
proof (induction frames arbitrary: G)
  case Nil
  then show ?case by (simp add: undisturbed_def)
next
  case (Cons frame frames)
  obtain G1 where a: "animate T frame G = Some G1" and r: "animateFrames T frames G1 = Some G'"
    using Cons.prems(1) by (auto split: option.splits)
  have s: "isShadowSnakeInvulnerable G1 \<and> undisturbed G G1"
  proof (cases "gameStarted G \<and> \<not> isGameOver G \<and> \<not> isPaused G")
    case True
    then have u: "updateGameLogic T (fst frame) (snd frame) G = Some G1"
      using a by (simp add: animate_def)
    have f: "isShadowSnakeInvulnerable G1"
      by (rule updateGameLogic_keeps_window [OF u Cons.prems(2)])
    then show ?thesis using updateGameLogic_invulnerable(2) [OF u f] by simp
  next
    case False
    then have "G1 = G" using a by (auto simp: animate_def)
    then show ?thesis using Cons.prems(2) by (simp add: undisturbed_def)
  qed
  from Cons.IH [OF r] s undisturbed_trans show ?case by blast
qed

text \<open>
  Claim C10. A frame update that ends with the invulnerability flag set has skipped the
  collision check: its result is the state before the collision stage, no collision was
  classified and no snake was dissolved. A spawn sets the flag and registers the timer;
  from a state with the flag set, any number of frames leaves the flag set, classifies
  no collision and dissolves no snake, the player included; the flag is cleared by the
  timer callback.
\<close>

theorem invulnerability_window_skips_collisions:
  "(updateGameLogic T time delta G = Some G' \<and> isShadowSnakeInvulnerable G'
      \<longrightarrow> beforeCollisions T time delta G = Some G' \<and> undisturbed G G') \<and>
   (animateFrames T frames G = Some G' \<and> isShadowSnakeInvulnerable G
      \<longrightarrow> isShadowSnakeInvulnerable G' \<and> undisturbed G G') \<and>
   (\<not> clock G 0 - lastShadowSpawnTime G < SHADOW_SPAWN_DELAY
      \<longrightarrow> isShadowSnakeInvulnerable (spawnShadowSnake T w n G) \<and>
          (\<exists>shadow. shadowSnakes (spawnShadowSnake T w n G) = shadowSnakes G @ [shadow] \<and>
                    timers (spawnShadowSnake T w n G) = timers G @ [(clock G 0, head shadow)])) \<and>
   \<not> isShadowSnakeInvulnerable (timeoutCallback h G)"
proof -
  have a: "beforeCollisions T time delta G = Some G' \<and> undisturbed G G'"
    if "updateGameLogic T time delta G = Some G'" "isShadowSnakeInvulnerable G'"
    using updateGameLogic_invulnerable [OF that] by simp
  have b: "isShadowSnakeInvulnerable G' \<and> undisturbed G G'"
    if "animateFrames T frames G = Some G'" "isShadowSnakeInvulnerable G"
    using animateFrames_invulnerable [OF that] .
  have c: "isShadowSnakeInvulnerable (spawnShadowSnake T w n G) \<and>
          (\<exists>shadow. shadowSnakes (spawnShadowSnake T w n G) = shadowSnakes G @ [shadow] \<and>
                    timers (spawnShadowSnake T w n G) = timers G @ [(clock G 0, head shadow)])"
    if "\<not> clock G 0 - lastShadowSpawnTime G < SHADOW_SPAWN_DELAY"
    using spawnShadowSnake_spawned(1,3) [OF that, of T w n] by blast
  have d: "\<not> isShadowSnakeInvulnerable (timeoutCallback h G)"
    by (simp add: timeoutCallback_def)
  show ?thesis using a b c d by blast
qed

lemmas example_defs =
  invulnerableGame_def crossingGame_def exampleGame_def exampleSnake_def exampleThree_def
  exampleObjects_def placeObject_def newSpatialGrid_def

lemmas step_defs =
  updateGameLogic_def beforeCollisions_def updatePlayer_def updateShadow_def update_def
  aiStep_def seekNibbles_def avoidWalls_def avoidWallsHead_def needsTurn_def updateSegment_def
  pushTrail_def checkCubeBoundary_def previousPosition_def wallCrossing_def isInsideCube_def
  checkNibbleCollection_def collectPlayer_def findNearby_def js_rem_def
  prim_defs positionOf_def rotationOf_def isWallObject_def
  add_def multiplyScalar_def insert_grid_def remove_def getGridKey_def set_add_def set_delete_def

lemma frame_runs:
  "updateGameLogic exampleThree 0 (1 / 9) invulnerableGame \<noteq> None"
  by (simp add: example_defs step_defs constants_defs Let_def)

theorem invulnerability_window_skips_collisions_witness:
  "isShadowSnakeInvulnerable invulnerableGame \<and>
   updateGameLogic exampleThree 0 (1 / 9) invulnerableGame
     = Some (the (updateGameLogic exampleThree 0 (1 / 9) invulnerableGame)) \<and>
   animateFrames exampleThree [(0, 1 / 9)] invulnerableGame
     = Some (the (updateGameLogic exampleThree 0 (1 / 9) invulnerableGame)) \<and>
   isShadowSnakeInvulnerable (the (updateGameLogic exampleThree 0 (1 / 9) invulnerableGame)) \<and>
   beforeCollisions exampleThree 0 (1 / 9) invulnerableGame
     = Some (the (updateGameLogic exampleThree 0 (1 / 9) invulnerableGame)) \<and>
   undisturbed invulnerableGame (the (updateGameLogic exampleThree 0 (1 / 9) invulnerableGame)) \<and>
   \<not> clock lateCrossingGame 0 - lastShadowSpawnTime lateCrossingGame < SHADOW_SPAWN_DELAY \<and>
   isShadowSnakeInvulnerable
     (spawnShadowSnake exampleThree (Vec3 50 0 0) (Vec3 (- 1) 0 0) lateCrossingGame) \<and>
   \<not> isShadowSnakeInvulnerable (timeoutCallback 20 invulnerableGame)"
proof -
  let ?G = invulnerableGame
  let ?G' = "the (updateGameLogic exampleThree 0 (1 / 9) invulnerableGame)"
  have f: "isShadowSnakeInvulnerable ?G" "gameStarted ?G" "\<not> isGameOver ?G" "\<not> isPaused ?G"
    by (simp_all add: example_defs updateObject_def Let_def)
  obtain G1 where g1: "updateGameLogic exampleThree 0 (1 / 9) ?G = Some G1"
    using frame_runs by blast
  have "animateFrames exampleThree [(0, 1 / 9)] ?G = Some G1"
    using f by (simp add: animate_def g1)
  then have an: "animateFrames exampleThree [(0, 1 / 9)] ?G = Some ?G'"
    by (simp add: g1)
  have u: "updateGameLogic exampleThree 0 (1 / 9) ?G = Some ?G'"
    by (simp add: g1)
  have late: "\<not> clock lateCrossingGame 0 - lastShadowSpawnTime lateCrossingGame < SHADOW_SPAWN_DELAY"
    by (simp add: lateCrossingGame_def crossingGame_def placeObject_def exampleGame_def
          updateObject_def Let_def constants_defs)
  note r1 = invulnerability_window_skips_collisions
              [of exampleThree 0 "1 / 9" ?G ?G' "[(0, 1 / 9)]" "Vec3 50 0 0" "Vec3 (- 1) 0 0" 20]
  note r2 = invulnerability_window_skips_collisions
              [of exampleThree 0 "1 / 9" lateCrossingGame ?G' "[]" "Vec3 50 0 0" "Vec3 (- 1) 0 0" 20]
  have w: "isShadowSnakeInvulnerable ?G' \<and> undisturbed ?G ?G'"
    using r1 an f(1) by blast
  then have b: "beforeCollisions exampleThree 0 (1 / 9) ?G = Some ?G'"
    using r1 u by blast
  have s: "isShadowSnakeInvulnerable
     (spawnShadowSnake exampleThree (Vec3 50 0 0) (Vec3 (- 1) 0 0) lateCrossingGame)"
    using r2 late by blast
  have t: "\<not> isShadowSnakeInvulnerable (timeoutCallback 20 ?G)"
    using r1 by blast
  show ?thesis using f(1) u an w b late s t by blast
qed

section \<open>Collision classification and resolution: proofs\<close>

lemma playerCollisions_not_own:
  "c \<in> set (playerCollisions G ps) \<Longrightarrow> \<exists>obj d. c = PlayerCollision obj d \<and> obj \<notin> set (segments ps) \<and> obj \<noteq> head ps"
  by (auto simp: playerCollisions_def Let_def split: if_splits)

lemma resolve_player_only:
  assumes "playerSnake G = Some ps" and "shadowSnakes G = []"
      and "\<forall>c \<in> set cs. \<exists>obj d. c = PlayerCollision obj d \<and> obj \<notin> set (segments ps)"
  shows "resolveCollisions cs G = G"
  using assms
proof (induction cs)
  case Nil
  then show ?case by simp
next
  case (Cons c cs)
  obtain obj d where c: "c = PlayerCollision obj d" and o: "obj \<notin> set (segments ps)"
    using Cons.prems(3) by auto
  have "resolveCollisions (c # cs) G = resolveCollisions cs G"
    using Cons.prems(1,2) o by (simp add: c)
  then show ?case using Cons by simp
qed

lemma player_alone_never_dissolved:
  assumes "playerSnake G = Some ps" and "shadowSnakes G = []"
  shows "Game_checkCollisions G = G\<lparr>collisionChecks := Suc (collisionChecks G)\<rparr>"
proof -
  let ?G1 = "G\<lparr>collisionChecks := Suc (collisionChecks G)\<rparr>"
  have cc: "checkCollisions G = (playerCollisions ?G1 ps, ?G1)"
    using assms by (simp add: checkCollisions_def Let_def)
  have "resolveCollisions (playerCollisions ?G1 ps) ?G1 = ?G1"
    by (rule resolve_player_only [where ps = ps])
       (use assms playerCollisions_not_own in \<open>auto dest!: playerCollisions_not_own\<close>)
  then show ?thesis by (simp add: Game_checkCollisions_def cc)
qed

lemma sqrt_4_25: "sqrt (4 / 25) = 2 / 5"
  by (rule real_sqrt_unique) (simp_all add: power2_eq_square)

lemmas coiled_defs =
  coiledGame_def coiledSegments_def exampleGame_def exampleSnake_def exampleObjects_def
  placeObject_def newSpatialGrid_def updateObject_def isWallObject_def insert_grid_def
  remove_def getGridKey_def set_add_def set_delete_def

lemma coiled_facts:
  "playerSnake coiledGame
     = Some ((exampleSnake True 12 [13, 14, 15, 16, 17, 18, 19, 20, 21, 22, 23]
                [Vec3 3 3 5, Vec3 4.6 3 5])\<lparr>nibblesEaten := 6\<rparr>)"
  "shadowSnakes coiledGame = []"
  "isGameOver coiledGame = False"
  "positionOf coiledGame 12 = Vec3 3 3 5"
  "positionOf coiledGame 23 = Vec3 3 3.4 5"
  "objectMap (spatialGrid coiledGame) 23 = Some (0, 0, 0)"
  "objectMap (spatialGrid coiledGame) 12 = Some (0, 0, 0)"
  "collisionChecks coiledGame = 0"
  by (simp_all add: coiled_defs positionOf_def Let_def)

lemma coiled_nearby:
  "getNearby (spatialGrid coiledGame) (Vec3 3 3 5) (COLLISION_DISTANCE * 2)
     = [12, 13, 14, 15, 16, 17, 18, 19, 20, 21, 22, 23]"
  by (simp add: coiled_defs getNearby_def nearbyKeys_def constants_defs Let_def upto.simps)


text \<open>
  Claim C1. For the player the rule on the index is not reached: \<open>checkCollisions\<close>
  discards the player's own segments before it measures any distance, so no contact of
  the player's head with its own body is reported, whatever the index, and the branch
  of \<open>_checkCollisions\<close> that dissolves the player on an index of at least 10 never
  runs. In \<open>coiledGame\<close> the head is 0.4 from its own segment of index 10, which the
  grid returns for the head; no collision is reported and the game is not over.
\<close>

theorem player_self_collision_not_detected:
  "playerSnake coiledGame
     = Some ((exampleSnake True 12 [13, 14, 15, 16, 17, 18, 19, 20, 21, 22, 23]
                [Vec3 3 3 5, Vec3 4.6 3 5])\<lparr>nibblesEaten := 6\<rparr>) \<and>
   indexOf [13, 14, 15, 16, 17, 18, 19, 20, 21, 22, 23 :: oid] 23 = 10 \<and>
   distanceTo (positionOf coiledGame 12) (positionOf coiledGame 23) = 0.4 \<and>
   distanceTo (positionOf coiledGame 12) (positionOf coiledGame 23) < COLLISION_DISTANCE \<and>
   23 \<in> set (getNearby (spatialGrid coiledGame) (positionOf coiledGame 12)
                (COLLISION_DISTANCE * 2)) \<and>
   fst (checkCollisions coiledGame) = [] \<and>
   Game_checkCollisions coiledGame = coiledGame\<lparr>collisionChecks := 1\<rparr> \<and>
   \<not> isGameOver (Game_checkCollisions coiledGame)"
proof -
  let ?ps = "(exampleSnake True 12 [13, 14, 15, 16, 17, 18, 19, 20, 21, 22, 23]
                [Vec3 3 3 5, Vec3 4.6 3 5])\<lparr>nibblesEaten := 6\<rparr>"
  have p: "playerSnake coiledGame = Some ?ps" by (rule coiled_facts(1))
  have i: "indexOf [13, 14, 15, 16, 17, 18, 19, 20, 21, 22, 23 :: oid] 23 = 10"
    by (simp add: indexOf_def)
  have d: "distanceTo (positionOf coiledGame 12) (positionOf coiledGame 23) = 0.4"
    using sqrt_4_25 by (simp add: coiled_facts distanceTo_def distanceSquared_def)
  have n: "23 \<in> set (getNearby (spatialGrid coiledGame) (positionOf coiledGame 12)
                (COLLISION_DISTANCE * 2))"
    by (simp add: coiled_facts(4) coiled_nearby)
  have g: "Game_checkCollisions coiledGame = coiledGame\<lparr>collisionChecks := 1\<rparr>"
    using player_alone_never_dissolved [OF p coiled_facts(2)]
    by (simp add: coiled_facts(8))
  have pc: "playerCollisions (coiledGame\<lparr>collisionChecks := Suc (collisionChecks coiledGame)\<rparr>) ?ps = []"
  proof -
    have hd: "head ?ps = 12" and sg: "segments ?ps = [13, 14, 15, 16, 17, 18, 19, 20, 21, 22, 23]"
      by (simp_all add: exampleSnake_def)
    have nb: "getNearby (spatialGrid (coiledGame\<lparr>collisionChecks := Suc (collisionChecks coiledGame)\<rparr>))
                (positionOf (coiledGame\<lparr>collisionChecks := Suc (collisionChecks coiledGame)\<rparr>) 12)
                (COLLISION_DISTANCE * 2)
            = [12, 13, 14, 15, 16, 17, 18, 19, 20, 21, 22, 23]"
      using coiled_nearby coiled_facts(4) by (simp add: positionOf_def)
    show ?thesis
      unfolding playerCollisions_def Let_def hd sg nb by simp
  qed
  have c: "fst (checkCollisions coiledGame) = []"
    using p coiled_facts(2) pc by (simp add: checkCollisions_def Let_def)
  have o: "\<not> isGameOver (Game_checkCollisions coiledGame)"
    by (simp add: g coiled_facts(3))
  show ?thesis using p i d n c g o by (simp add: constants_defs)
qed

end
